theory Spec2Isabelle
  imports Complex_Main
begin

section \<open>Shared Python-level values\<close>

text \<open>
  The three programs of the repository (the GTP front end of assignment 1, the rollout
  player of assignment 3 and the alpha-beta solver of assignment 4) are embedded as HOL
  functions. Exceptions become values of \<open>py_error\<close>; a dynamically typed argument
  becomes a \<open>pyval\<close>.
\<close>

datatype py_error = ValueError | KeyError | IndexError | AssertionError | ZeroDivisionError

datatype pyval = PyNone | PyInt int | PyStr string

text \<open>
  Modelled from the spec: \<open>board_base.py\<close> is not among the sources. The cell states
  are \<open>{Empty, Black, White, Border}\<close>; the sources fix \<open>BLACK = 1\<close> and
  \<open>WHITE = 2\<close> (literals in \<open>genmove_cmd\<close>) and \<open>EMPTY = 0\<close> (the third slot
  of the three-element \<open>stats\<close> list of \<open>simulate\<close>); \<open>BORDER\<close> is the fourth
  state, \<open>PASS\<close> the point \<open>0\<close>, \<open>MAXSIZE\<close> the bound asserted by
  \<open>format_point\<close>, and \<open>opponent\<close> swaps the two stone colours.
\<close>

definition EMPTY :: int where "EMPTY = 0"
definition BLACK :: int where "BLACK = 1"
definition WHITE :: int where "WHITE = 2"
definition BORDER :: int where "BORDER = 3"
definition PASS :: int where "PASS = 0"
definition MAXSIZE :: int where "MAXSIZE = 25"

definition opponent :: "int \<Rightarrow> int" where
  "opponent color = WHITE + BLACK - color"

text \<open>Python compares a \<open>bool\<close> with an \<open>int\<close> through its integer value.\<close>

definition py_bool :: "bool \<Rightarrow> int" where
  "py_bool b = (if b then 1 else 0)"

subsection \<open>Strings: \<open>str.lower\<close> and \<open>str\<close> of an integer\<close>

definition lower_char :: "char \<Rightarrow> char" where
  "lower_char c =
     (case map_of (zip ''ABCDEFGHIJKLMNOPQRSTUVWXYZ'' ''abcdefghijklmnopqrstuvwxyz'') c of
        None \<Rightarrow> c | Some d \<Rightarrow> d)"

definition lower :: "string \<Rightarrow> string" where
  "lower s = map lower_char s"

definition digit_char :: "nat \<Rightarrow> char" where
  "digit_char d = ''0123456789'' ! d"

function str_nat :: "nat \<Rightarrow> string" where
  "str_nat n = (if n < 10 then [digit_char n] else str_nat (n div 10) @ [digit_char (n mod 10)])"
  by pat_completeness auto
termination
  by (relation "measure (\<lambda>n. n)") auto

declare str_nat.simps [simp del]

definition str_int :: "int \<Rightarrow> string" where
  "str_int i = (if i < 0 then CHR ''-'' # str_nat (nat (- i)) else str_nat (nat i))"

section \<open>Assignment 1: \<open>gtp_connection.py\<close>\<close>

subsection \<open>Coordinates\<close>

text \<open>
  \<open>point_to_coord\<close> is \<open>divmod (point, boardsize + 1)\<close>; Python's floor division
  agrees with \<open>div\<close> and \<open>mod\<close> on \<open>int\<close>, and raises on a zero divisor.
\<close>

definition point_to_coord :: "int \<Rightarrow> int \<Rightarrow> py_error + (int \<times> int)" where
  "point_to_coord point boardsize =
     (if point = PASS then Inr (PASS, PASS)
      else if boardsize + 1 = 0 then Inl ZeroDivisionError
      else Inr (point div (boardsize + 1), point mod (boardsize + 1)))"

definition column_letters :: string where
  "column_letters = ''ABCDEFGHJKLMNOPQRSTUVWXYZ''"

text \<open>
  \<open>format_point\<close>: the range check admits \<open>0 \<le> row < MAXSIZE\<close> only. Column \<open>0\<close>
  passes the check and indexes \<open>column_letters[-1]\<close>, the last letter. (The diagnostic
  \<open>print\<close> before the raise is not modelled.)
\<close>

definition format_point :: "int \<times> int \<Rightarrow> py_error + string" where
  "format_point move =
     (if fst move = PASS then Inr ''PASS''
      else (let row = fst move; col = snd move in
        if \<not> (0 \<le> row \<and> row < MAXSIZE) \<or> \<not> (0 \<le> col \<and> col < MAXSIZE) then Inl ValueError
        else Inr (column_letters ! nat (if col - 1 < 0 then col - 1 + 25 else col - 1)
                    # str_int row)))"

definition color_to_int :: "string \<Rightarrow> int option" where
  "color_to_int c =
     map_of [(''b'', BLACK), (''w'', WHITE), (''e'', EMPTY), (''BORDER'', BORDER)] c"

subsection \<open>The board and the connection state\<close>

text \<open>
  Modelled from the spec: \<open>board.py\<close> is not among the sources. A board has a size, the
  row stride \<open>NS\<close>, the one-dimensional grid \<open>board\<close> (playable cells and the border
  ring), the side to move and the last move; whatever else it holds (capture counts,
  history) lives in the record's extension. \<open>maxpoint\<close> is the number of grid cells and
  \<open>get_color\<close> reads one cell.
\<close>

record go_board =
  board_size :: int
  NS :: int
  board :: "int list"
  current_player :: int
  last_move :: pyval

definition maxpoint :: "'a go_board_scheme \<Rightarrow> int" where
  "maxpoint b = int (length (board b))"

definition get_color :: "'a go_board_scheme \<Rightarrow> int \<Rightarrow> int" where
  "get_color b point = board b ! nat point"

text \<open>
  The operations of the absent \<open>board.py\<close> and \<open>board_util.py\<close> that the sources call,
  and the random choices, are parameters of the model.
\<close>

record 'b board_api =
  result :: "'b \<Rightarrow> string"
  get_empty_points :: "'b \<Rightarrow> int list"
  is_legal :: "'b \<Rightarrow> int \<Rightarrow> int \<Rightarrow> bool"
  play_move :: "'b \<Rightarrow> int \<Rightarrow> int \<Rightarrow> 'b"
  choice :: "int list \<Rightarrow> int"

record 'b gtp_connection =
  white_score :: int
  black_score :: int
  conn_board :: 'b

definition is_on_board :: "('a go_board_scheme) gtp_connection \<Rightarrow> int \<Rightarrow> bool" where
  "is_on_board st point = (0 \<le> point \<and> point < maxpoint (conn_board st))"

subsection \<open>\<open>capture_stones\<close>\<close>

definition directions :: "int \<Rightarrow> int list" where
  "directions ns = [1, - 1, ns, - ns, ns + 1, - ns + 1, ns - 1, - ns - 1]"

definition set_empty :: "('a go_board_scheme) gtp_connection \<Rightarrow> int \<Rightarrow> ('a go_board_scheme) gtp_connection" where
  "set_empty st point =
     st\<lparr>conn_board := (conn_board st)\<lparr>board := (board (conn_board st))[nat point := EMPTY]\<rparr>\<rparr>"

text \<open>
  The body of the loop over the directions, and the loop. The two flank tests compare the Boolean result of
  \<open>_is_on_board\<close> with \<open>BORDER\<close>, as the source does. The captured stones are
  formatted before the cells are emptied, so a \<open>ValueError\<close> of \<open>format_point\<close> leaves
  the loop with the cells of the earlier directions already emptied.
\<close>

definition capture_direction ::
  "('a go_board_scheme) gtp_connection \<Rightarrow> int \<Rightarrow> int \<Rightarrow> int \<Rightarrow> string list
     \<Rightarrow> ('a go_board_scheme) gtp_connection \<times> string list \<times> py_error option" where
  "capture_direction st point color direction captured_stones =
     (let opponent_color = opponent color;
          neighbor1 = point + direction;
          neighbor2 = neighbor1 + direction in
      if is_on_board st neighbor1 \<and> is_on_board st neighbor2
         \<and> get_color (conn_board st) neighbor1 = opponent_color
         \<and> get_color (conn_board st) neighbor2 = opponent_color
      then
        (let end1 = neighbor1 - direction; end2 = neighbor2 + direction in
         if is_on_board st end1 \<and> is_on_board st end2
            \<and> (get_color (conn_board st) end1 = color \<or> py_bool (is_on_board st end1) = BORDER)
            \<and> (get_color (conn_board st) end2 = color \<or> py_bool (is_on_board st end2) = BORDER)
         then
           (case point_to_coord neighbor1 (board_size (conn_board st)) of
              Inl e \<Rightarrow> (st, captured_stones, Some e)
            | Inr move_coord1 \<Rightarrow>
           (case point_to_coord neighbor2 (board_size (conn_board st)) of
              Inl e \<Rightarrow> (st, captured_stones, Some e)
            | Inr move_coord2 \<Rightarrow>
           (case format_point move_coord1 of
              Inl e \<Rightarrow> (st, captured_stones, Some e)
            | Inr s1 \<Rightarrow>
           (case format_point move_coord2 of
              Inl e \<Rightarrow> (st, captured_stones, Some e)
            | Inr s2 \<Rightarrow>
                (set_empty (set_empty st neighbor1) neighbor2,
                 captured_stones @ [s1, s2], None)))))
         else (st, captured_stones, None))
      else (st, captured_stones, None))"

fun capture_loop ::
  "('a go_board_scheme) gtp_connection \<Rightarrow> int \<Rightarrow> int \<Rightarrow> int list \<Rightarrow> string list
     \<Rightarrow> ('a go_board_scheme) gtp_connection \<times> string list \<times> py_error option" where
  "capture_loop st point color [] captured_stones = (st, captured_stones, None)"
| "capture_loop st point color (direction # ds) captured_stones =
     (case capture_direction st point color direction captured_stones of
        (st', captured', Some e) \<Rightarrow> (st', captured', Some e)
      | (st', captured', None) \<Rightarrow> capture_loop st' point color ds captured')"

definition capture_stones ::
  "('a go_board_scheme) gtp_connection \<Rightarrow> int \<Rightarrow> int
     \<Rightarrow> ('a go_board_scheme) gtp_connection \<times> py_error option" where
  "capture_stones st point color =
     (case capture_loop st point color (directions (NS (conn_board st))) [] of
        (st', captured_stones, Some e) \<Rightarrow> (st', Some e)
      | (st', captured_stones, None) \<Rightarrow>
          (if color = BLACK
           then (st'\<lparr>black_score := black_score st' + int (length captured_stones)\<rparr>, None)
           else if color = WHITE
           then (st'\<lparr>white_score := white_score st' + int (length captured_stones)\<rparr>, None)
           else (st', None)))"

subsection \<open>\<open>genmove_cmd\<close>\<close>

text \<open>
  The result is the list of strings passed to \<open>respond\<close>, the connection state and the
  exception that left the command, if any. \<open>has_arg_error\<close> admits the command with
  exactly one argument.
\<close>

definition genmove_cmd ::
  "(('a go_board_scheme) board_api) \<Rightarrow> ('a go_board_scheme) gtp_connection \<Rightarrow> string list
     \<Rightarrow> string list \<times> ('a go_board_scheme) gtp_connection \<times> py_error option" where
  "genmove_cmd api st args =
     (case args of
        [] \<Rightarrow> ([], st, Some IndexError)
      | arg0 # _ \<Rightarrow>
     (let board_color = lower arg0 in
      case color_to_int board_color of
        None \<Rightarrow> ([], st, Some KeyError)
      | Some color \<Rightarrow>
     (let opponent_color = opponent color in
      if opponent_color = 2 \<and> white_score st \<ge> 10 then ([''resign''], st, None)
      else if opponent_color = 1 \<and> black_score st \<ge> 10 then ([''resign''], st, None)
      else if opponent_color = 1 \<and> result api (conn_board st) = ''black''
      then ([''resign''], st, None)
      else if opponent_color = 2 \<and> result api (conn_board st) = ''white''
      then ([''resign''], st, None)
      else
        (let emptyPoints = get_empty_points api (conn_board st) in
         if length emptyPoints = 0 then ([''pass''], st, None)
         else
           (let legalMoves = filter (\<lambda>point. is_legal api (conn_board st) point color) emptyPoints in
            if length legalMoves > 0 then
              (let move = choice api legalMoves in
               case point_to_coord move (board_size (conn_board st)) of
                 Inl e \<Rightarrow> ([], st, Some e)
               | Inr move_coord \<Rightarrow>
                   (let st1 = st\<lparr>conn_board := play_move api (conn_board st) move color\<rparr> in
                    case format_point move_coord of
                      Inl e \<Rightarrow> ([], st1, Some e)
                    | Inr s \<Rightarrow>
                        (case capture_stones st1 move color of
                           (st2, err) \<Rightarrow> ([s], st2, err))))
            else ([], st, None))))))"


section \<open>Assignment 3: the rollout player of \<open>Ninuki.py\<close>\<close>

text \<open>
  \<open>GoBoard.simulation\<close> (a random playout returning the winner's colour, \<open>EMPTY\<close>
  for a draw) and \<open>GoBoard.end_of_game\<close> are not among the sources; the outcomes of the
  playouts are a parameter: \<open>rollouts k\<close> is the winner of the \<open>k\<close>-th playout of one
  call of \<open>simulate\<close>. The deep copies and the \<open>play_move\<close> on the copy only feed
  \<open>simulation\<close> and leave \<open>state\<close> alone. Python computes the score in floating point;
  the model computes it in exact rational arithmetic.
\<close>

text \<open>\<open>stats[winner] += 1\<close> on the three-element list, with Python's negative indices.\<close>

definition py_incr :: "int list \<Rightarrow> int \<Rightarrow> py_error + int list" where
  "py_incr stats winner =
     (let idx = (if winner < 0 then winner + int (length stats) else winner) in
      if 0 \<le> idx \<and> idx < int (length stats)
      then Inr (stats[nat idx := stats ! nat idx + 1])
      else Inl IndexError)"

fun tally :: "(nat \<Rightarrow> int) \<Rightarrow> nat list \<Rightarrow> int list \<Rightarrow> py_error + int list" where
  "tally rollouts [] stats = Inr stats"
| "tally rollouts (k # ks) stats =
     (case py_incr stats (rollouts k) of
        Inl e \<Rightarrow> Inl e
      | Inr stats' \<Rightarrow> tally rollouts ks stats')"

definition simulate ::
  "(nat \<Rightarrow> int) \<Rightarrow> int \<Rightarrow> 'a go_board_scheme \<Rightarrow> int \<Rightarrow> py_error + rat" where
  "simulate rollouts numSimulations state move =
     (case tally rollouts [0..<nat numSimulations] [0, 0, 0] of
        Inl e \<Rightarrow> Inl e
      | Inr stats \<Rightarrow>
          if sum_list stats \<noteq> numSimulations then Inl AssertionError
          else if numSimulations = 0 then Inl ZeroDivisionError
          else
            (let eval = (of_int (stats ! nat BLACK) + (1 / 2) * of_int (stats ! nat EMPTY))
                          / of_int numSimulations in
             if current_player state = WHITE then Inr (1 - eval) else Inr eval))"

text \<open>
  The loops of \<open>genmove\<close>. \<open>best_score\<close> starts at \<open>float ('-inf')\<close>, the value
  \<open>None\<close> here, below every score. \<open>sim i j\<close> gives the playout outcomes of the
  \<open>j\<close>-th of the ten evaluations of candidate \<open>i\<close>.
\<close>

definition score_gt :: "rat \<Rightarrow> rat option \<Rightarrow> bool" where
  "score_gt score best_score = (case best_score of None \<Rightarrow> True | Some b \<Rightarrow> score > b)"

fun genmove_inner ::
  "(nat \<Rightarrow> nat \<Rightarrow> int) \<Rightarrow> int \<Rightarrow> 'a go_board_scheme \<Rightarrow> int \<Rightarrow> nat list
     \<Rightarrow> rat option \<times> int option \<Rightarrow> py_error + (rat option \<times> int option)" where
  "genmove_inner evals numSimulations state move [] best = Inr best"
| "genmove_inner evals numSimulations state move (j # js) best =
     (case simulate (evals j) numSimulations state move of
        Inl e \<Rightarrow> Inl e
      | Inr score \<Rightarrow>
          if score_gt score (fst best)
          then genmove_inner evals numSimulations state move js (Some score, Some move)
          else genmove_inner evals numSimulations state move js best)"

fun genmove_outer ::
  "(nat \<Rightarrow> nat \<Rightarrow> nat \<Rightarrow> int) \<Rightarrow> int \<Rightarrow> 'a go_board_scheme \<Rightarrow> int list \<Rightarrow> nat list
     \<Rightarrow> rat option \<times> int option \<Rightarrow> py_error + (rat option \<times> int option)" where
  "genmove_outer sim numSimulations state moves [] best = Inr best"
| "genmove_outer sim numSimulations state moves (i # is) best =
     (case genmove_inner (sim i) numSimulations state (moves ! i) [0..<10] best of
        Inl e \<Rightarrow> Inl e
      | Inr best' \<Rightarrow> genmove_outer sim numSimulations state moves is best')"

definition genmove ::
  "(('a go_board_scheme) board_api) \<Rightarrow> ('a go_board_scheme \<Rightarrow> bool)
     \<Rightarrow> (nat \<Rightarrow> nat \<Rightarrow> nat \<Rightarrow> int) \<Rightarrow> int \<Rightarrow> 'a go_board_scheme \<Rightarrow> py_error + int" where
  "genmove api end_of_game sim numSimulations state =
     (if end_of_game state then Inl AssertionError
      else
        (let moves = get_empty_points api state; numMoves = length moves in
         case genmove_outer sim numSimulations state moves [0..<numMoves] (None, None) of
           Inl e \<Rightarrow> Inl e
         | Inr (best_score, best_move) \<Rightarrow>
             (case best_move of
                None \<Rightarrow> Inl AssertionError
              | Some m \<Rightarrow> if m \<in> set (get_empty_points api state) then Inr m
                          else Inl AssertionError)))"

text \<open>
  The specification's score of one evaluation, in its own words: wins (of Black) count
  1, draws count 0.5, normalised by the number of rollouts, and the score is complemented
  if the side to move is White. It is stated over the playout outcomes directly and
  compared with what \<open>simulate\<close> computes.
\<close>

definition rollout_score :: "(nat \<Rightarrow> int) \<Rightarrow> int \<Rightarrow> 'a go_board_scheme \<Rightarrow> rat" where
  "rollout_score rollouts numSimulations state =
     (let wins = length (filter (\<lambda>k. rollouts k = BLACK) [0..<nat numSimulations]);
          draws = length (filter (\<lambda>k. rollouts k = EMPTY) [0..<nat numSimulations]);
          score = (of_nat wins + (1 / 2) * of_nat draws) / of_int numSimulations in
      if current_player state = WHITE then 1 - score else score)"

text \<open>
  The specification's score of a candidate, in its own words: black wins plus half the
  draws over all rollouts of the candidate, divided by their number, complemented for
  White. It is compared with what \<open>genmove\<close> computes.
\<close>

definition spec_aggregate_score ::
  "(nat \<Rightarrow> nat \<Rightarrow> nat \<Rightarrow> int) \<Rightarrow> int \<Rightarrow> 'a go_board_scheme \<Rightarrow> nat \<Rightarrow> rat" where
  "spec_aggregate_score sim numSimulations state i =
     (let outcomes = concat (map (\<lambda>j. map (sim i j) [0..<nat numSimulations]) [0..<10]);
          wins = length (filter (\<lambda>w. w = BLACK) outcomes);
          draws = length (filter (\<lambda>w. w = EMPTY) outcomes);
          score = (of_nat wins + (1 / 2) * of_nat draws) / of_nat (length outcomes) in
      if current_player state = WHITE then 1 - score else score)"

text \<open>
  The invariant of the two loops of \<open>genmove\<close> after \<open>k\<close> evaluations (evaluation
  \<open>10 * i + j\<close> is the \<open>j\<close>-th of candidate \<open>i\<close>): the stored best score is that of
  the earliest evaluation reaching the maximum so far.
\<close>

definition best_inv ::
  "(nat \<Rightarrow> nat \<Rightarrow> py_error + rat) \<Rightarrow> int list \<Rightarrow> nat \<Rightarrow> rat option \<times> int option \<Rightarrow> bool" where
  "best_inv score moves k best =
     ((k = 0 \<and> best = (None, None)) \<or>
      (\<exists>i j s. j < 10 \<and> 10 * i + j < k \<and> best = (Some s, Some (moves ! i)) \<and> score i j = Inr s
         \<and> (\<forall>i' j'. j' < 10 \<and> 10 * i' + j' < k \<longrightarrow>
               (\<exists>s'. score i' j' = Inr s' \<and> s' \<le> s \<and> (10 * i' + j' < 10 * i + j \<longrightarrow> s' < s)))))"


section \<open>Assignment 4: the alpha-beta solver of \<open>team7/Ninuki.py\<close>\<close>

subsection \<open>The board interface, the clock and the shuffle\<close>

text \<open>
  The board operations the solver calls (\<open>board.py\<close>, \<open>board_util.py\<close>) are not among
  the sources; they extend the parameters of the front end. \<open>is_terminal\<close> returns the
  flag and the winner; \<open>analyze\<close> returns the tier of a potential move; \<open>check\<close> is
  the board method whose pair \<open>solve_board\<close> returns on a timeout. The wall clock is the
  parameter \<open>expired\<close>: \<open>expired k\<close> is the outcome of the \<open>k\<close>-th deadline test
  \<open>time.time () - solve_start_time > time_limit - 0.01\<close> of one run of \<open>solve_board\<close>.
  \<open>random.shuffle\<close> at the root is the parameter \<open>shuffle\<close>, applied once per
  iteration and indexed by the iteration's depth limit.
\<close>

record 'b solver_api = "'b board_api" +
  is_terminal :: "'b \<Rightarrow> bool \<times> int"
  generate_legal_moves :: "'b \<Rightarrow> int \<Rightarrow> int list"
  undo :: "'b \<Rightarrow> 'b"
  get_potential_moves :: "'b \<Rightarrow> int list"
  analyze :: "'b \<Rightarrow> int \<Rightarrow> nat"
  check :: "'b \<Rightarrow> pyval \<times> pyval"
  copy :: "'b \<Rightarrow> 'b"
  expired :: "nat \<Rightarrow> bool"
  shuffle :: "int \<Rightarrow> int list \<Rightarrow> int list"

text \<open>
  The fields of \<open>A4SubmissionPlayer\<close> that the search uses: the working board
  \<open>self.board\<close>, \<open>best_move\<close>, \<open>max_depth\<close>, and the number of deadline tests made
  since \<open>solve_start_time\<close> was set.
\<close>

record 'b player =
  pboard :: 'b
  best_move :: int
  max_depth :: int
  ticks :: nat

subsection \<open>\<open>alpha_beta\<close>\<close>

text \<open>
  The head of \<open>alpha_beta\<close>: the deadline test, then the terminal test. \<open>Some r\<close> is
  an immediate return of the triple (value, solved, timeout).
\<close>

definition ab_entry ::
  "('a go_board_scheme) solver_api \<Rightarrow> ('a go_board_scheme) player
     \<Rightarrow> (int \<times> bool \<times> bool) option \<times> ('a go_board_scheme) player" where
  "ab_entry api st =
     (if expired api (ticks st) then (Some (0, False, True), st\<lparr>ticks := Suc (ticks st)\<rparr>)
      else
        (let st' = st\<lparr>ticks := Suc (ticks st)\<rparr> in
         case is_terminal api (pboard st') of
           (is_term, winner) \<Rightarrow>
             if is_term then
               (if winner = current_player (pboard st') then (Some (1, True, False), st')
                else if winner = opponent (current_player (pboard st'))
                then (Some (- 1, True, False), st')
                else (Some (0, True, False), st'))
             else (None, st')))"

definition ab_moves ::
  "('a go_board_scheme) solver_api \<Rightarrow> int \<Rightarrow> int \<Rightarrow> ('a go_board_scheme) player \<Rightarrow> int list" where
  "ab_moves api md depth st =
     (let moves = generate_legal_moves api (pboard st) (current_player (pboard st)) in
      if depth = 0 then shuffle api md moves else moves)"

definition ab_play ::
  "('a go_board_scheme) solver_api \<Rightarrow> int \<Rightarrow> ('a go_board_scheme) player
     \<Rightarrow> ('a go_board_scheme) player" where
  "ab_play api move st =
     st\<lparr>pboard := play_move api (pboard st) move (current_player (pboard st))\<rparr>"

text \<open>
  The body of the loop after the recursive call: undo, negate, then the five tests in
  the order of the source. \<open>Inl\<close> is a return from \<open>alpha_beta\<close>, \<open>Inr\<close> carries
  \<open>alpha\<close> and \<open>any_unsolved\<close> to the next move.
\<close>

definition ab_child ::
  "('a go_board_scheme) solver_api \<Rightarrow> int \<Rightarrow> int \<Rightarrow> int \<Rightarrow> int \<Rightarrow> bool
     \<Rightarrow> (int \<times> bool \<times> bool) \<times> ('a go_board_scheme) player
     \<Rightarrow> ((int \<times> bool \<times> bool) \<times> ('a go_board_scheme) player)
         + (int \<times> bool \<times> ('a go_board_scheme) player)" where
  "ab_child api alpha beta depth move any_unsolved r =
     (case r of ((value0, solved, timeout), st2) \<Rightarrow>
        (let st3 = st2\<lparr>pboard := undo api (pboard st2)\<rparr>;
             value = - value0 in
         if timeout then Inl ((0, False, True), st3)
         else
           (let any_unsolved' = (if \<not> solved then True else any_unsolved);
                alpha' = (if value > alpha then value else alpha);
                st4 = (if value > alpha \<and> depth = 0 then st3\<lparr>best_move := move\<rparr> else st3) in
            if solved \<and> value = 1 then Inl ((1, True, False), st4)
            else if value \<ge> beta then Inl ((beta, True, False), st4)
            else Inr (alpha', any_unsolved', st4))))"

text \<open>
  \<open>alpha_beta\<close> and its loop over the moves. \<open>self.max_depth\<close>, which the search reads
  and never assigns, is the argument \<open>md\<close>.
\<close>

function alpha_beta ::
  "('a go_board_scheme) solver_api \<Rightarrow> int \<Rightarrow> int \<Rightarrow> int \<Rightarrow> int \<Rightarrow> ('a go_board_scheme) player
     \<Rightarrow> (int \<times> bool \<times> bool) \<times> ('a go_board_scheme) player"
  and ab_loop ::
  "('a go_board_scheme) solver_api \<Rightarrow> int \<Rightarrow> int \<Rightarrow> int \<Rightarrow> int \<Rightarrow> int list \<Rightarrow> bool
     \<Rightarrow> ('a go_board_scheme) player
     \<Rightarrow> (int \<times> bool \<times> bool) \<times> ('a go_board_scheme) player" where
  "alpha_beta api md alpha beta depth st =
     (case ab_entry api st of
        (Some r, st') \<Rightarrow> (r, st')
      | (None, st') \<Rightarrow>
          if depth \<ge> md then ((0, False, False), st')
          else ab_loop api md alpha beta depth (ab_moves api md depth st') False st')"
| "ab_loop api md alpha beta depth [] any_unsolved st = ((alpha, \<not> any_unsolved, False), st)"
| "ab_loop api md alpha beta depth (move # moves) any_unsolved st =
     (case ab_child api alpha beta depth move any_unsolved
             (alpha_beta api md (- beta) (- alpha) (depth + 1) (ab_play api move st)) of
        Inl r \<Rightarrow> r
      | Inr (alpha', any_unsolved', st') \<Rightarrow>
          ab_loop api md alpha' beta depth moves any_unsolved' st')"
  by pat_completeness auto
termination
  by (relation "measures
        [\<lambda>x. case x of
                Inl (api, md, alpha, beta, depth, st) \<Rightarrow> nat (2 * (md - depth))
              | Inr (api, md, alpha, beta, depth, moves, any_unsolved, st) \<Rightarrow>
                  max 1 (nat (2 * (md - depth) - 1)),
         \<lambda>x. case x of
                Inl (api, md, alpha, beta, depth, st) \<Rightarrow> 0
              | Inr (api, md, alpha, beta, depth, moves, any_unsolved, st) \<Rightarrow> length moves]")
     auto

declare alpha_beta.simps [simp del]

subsection \<open>\<open>rule\<close>, \<open>solve_board\<close> and \<open>get_move\<close>\<close>

text \<open>
  \<open>rule\<close> sorts the potential moves into the lists \<open>moves[1..3]\<close> by the result of
  \<open>analyze\<close> and returns the first move of their concatenation. A result beyond the
  four lists raises \<open>IndexError\<close>.
\<close>

definition rule :: "('a go_board_scheme) solver_api \<Rightarrow> 'a go_board_scheme \<Rightarrow> py_error + int option" where
  "rule api b =
     (let moves0 = get_potential_moves api b in
      if list_ex (\<lambda>move. analyze api b move \<ge> 4) moves0 then Inl IndexError
      else
        (let moveset = filter (\<lambda>move. analyze api b move = 1) moves0
                       @ filter (\<lambda>move. analyze api b move = 2) moves0
                       @ filter (\<lambda>move. analyze api b move = 3) moves0 in
         case moveset of [] \<Rightarrow> Inr None | move # _ \<Rightarrow> Inr (Some move)))"

text \<open>
  \<open>format_point (point_to_coord (move, size)).lower ()\<close>, with the two functions as
  \<open>gtp_connection.py\<close> of assignment 1 defines them.
\<close>

definition format_move :: "int \<Rightarrow> int \<Rightarrow> py_error + string" where
  "format_move move boardsize =
     (case point_to_coord move boardsize of
        Inl e \<Rightarrow> Inl e
      | Inr coord \<Rightarrow>
          (case format_point coord of Inl e \<Rightarrow> Inl e | Inr s \<Rightarrow> Inr (lower s)))"

text \<open>
  The first lines of \<open>solve_board\<close>: the clock is started, the board copied and
  \<open>best_move\<close> set to the first empty point (\<open>PASS\<close> when there is none).
  \<open>solve_start\<close> is the player after them.
\<close>

text \<open>
  The iterative-deepening loop \<open>while not solved and not timeout\<close>. It need not
  terminate, so a run that never leaves the loop is \<open>None\<close>.
\<close>

partial_function (option) solve_loop ::
  "('a go_board_scheme) solver_api \<Rightarrow> int \<times> bool \<times> bool \<Rightarrow> ('a go_board_scheme) player
     \<Rightarrow> ((int \<times> bool \<times> bool) \<times> ('a go_board_scheme) player) option" where
  "solve_loop api r st =
     (if \<not> fst (snd r) \<and> \<not> snd (snd r) then
        (case alpha_beta api (max_depth st) (- 1) 1 0 st of
           (r', st') \<Rightarrow> solve_loop api r' (st'\<lparr>max_depth := max_depth st' + 1\<rparr>))
      else Some (r, st))"

declare solve_loop.simps [code]

definition color_letter :: "int \<Rightarrow> string" where
  "color_letter c = (if c = BLACK then ''b'' else ''w'')"

definition solve_start ::
  "('a go_board_scheme) solver_api \<Rightarrow> ('a go_board_scheme) player \<Rightarrow> 'a go_board_scheme
     \<Rightarrow> ('a go_board_scheme) player" where
  "solve_start api st0 b =
     (let st1 = st0\<lparr>ticks := 0, pboard := copy api b\<rparr> in
      if length (get_empty_points api (pboard st1)) = 0
      then st1\<lparr>best_move := PASS\<rparr>
      else st1\<lparr>best_move := hd (get_empty_points api (pboard st1))\<rparr>)"

definition solve_board ::
  "('a go_board_scheme) solver_api \<Rightarrow> ('a go_board_scheme) player \<Rightarrow> 'a go_board_scheme
     \<Rightarrow> ((py_error + pyval \<times> pyval) \<times> ('a go_board_scheme) player) option" where
  "solve_board api st0 b =
     (let st2 = solve_start api st0 b in
      case rule api (pboard st2) of
        Inl e \<Rightarrow> Some (Inl e, st2)
      | Inr (Some x) \<Rightarrow>
          (let st3 = st2\<lparr>best_move := x\<rparr> in
           case format_move (best_move st3) (board_size (pboard st3)) of
             Inl e \<Rightarrow> Some (Inl e, st3)
           | Inr s \<Rightarrow>
               Some (Inr (PyStr (color_letter (current_player (pboard st3))), PyStr s), st3))
      | Inr None \<Rightarrow>
          (case solve_loop api (0, False, False) (st2\<lparr>max_depth := 1\<rparr>) of
             None \<Rightarrow> None
           | Some ((res, solved, timeout), st) \<Rightarrow>
               if timeout then Some (Inr (check api (pboard st)), st)
               else if res = 1 then
                 (case format_move (best_move st) (board_size (pboard st)) of
                    Inl e \<Rightarrow> Some (Inl e, st)
                  | Inr s \<Rightarrow>
                      Some (Inr (PyStr (color_letter (current_player (pboard st))), PyStr s), st))
               else if res = - 1 then
                 Some (Inr (PyStr (if current_player (pboard st) = BLACK then ''w'' else ''b''),
                            PyNone), st)
               else
                 (case format_move (best_move st) (board_size (pboard st)) of
                    Inl e \<Rightarrow> Some (Inl e, st)
                  | Inr s \<Rightarrow> Some (Inr (PyStr ''draw'', PyStr s), st))))"

text \<open>
  \<open>get_move\<close> assigns \<open>current_player\<close> and \<open>last_move\<close> of the caller's board, so
  the board is part of the result. The colour argument is whatever Python value the
  caller passes; \<open>color == 'w'\<close> holds for the string \<open>w\<close> only.
\<close>

definition get_move_solve ::
  "('a go_board_scheme) solver_api \<Rightarrow> ('a go_board_scheme) player \<Rightarrow> 'a go_board_scheme
     \<Rightarrow> ((py_error + string) \<times> ('a go_board_scheme) player \<times> 'a go_board_scheme) option" where
  "get_move_solve api st b =
     (case solve_board api st b of
        None \<Rightarrow> None
      | Some (Inl e, st') \<Rightarrow> Some (Inl e, st', b)
      | Some (Inr (winner, move), st') \<Rightarrow>
          Some (format_move (best_move st') (board_size (pboard st')), st',
                b\<lparr>last_move := move\<rparr>))"

definition get_move ::
  "('a go_board_scheme) solver_api \<Rightarrow> ('a go_board_scheme) player \<Rightarrow> 'a go_board_scheme \<Rightarrow> pyval
     \<Rightarrow> ((py_error + string) \<times> ('a go_board_scheme) player \<times> 'a go_board_scheme) option" where
  "get_move api st b color =
     (if length (get_empty_points api b) = 0 then Some (Inr ''pass'', st, b)
      else if color = PyStr ''w''
      then get_move_solve api st (b\<lparr>current_player := WHITE\<rparr>)
      else get_move_solve api st (b\<lparr>current_player := BLACK\<rparr>))"

subsection \<open>Invariants of the search\<close>

text \<open>
  What a call of \<open>alpha_beta\<close> that starts in \<open>st\<close> and ends in \<open>st'\<close> with the
  triple \<open>r\<close> does with the clock: it reports a timeout only with value \<open>0\<close>, unsolved,
  and on an expired test; and a test that found the deadline expired is the call's last
  test and makes it report a timeout.
\<close>

definition clock_ok ::
  "('a go_board_scheme) solver_api \<Rightarrow> ('a go_board_scheme) player \<Rightarrow> int \<times> bool \<times> bool
     \<Rightarrow> ('a go_board_scheme) player \<Rightarrow> bool" where
  "clock_ok api st r st' =
     (ticks st \<le> ticks st'
      \<and> (snd (snd r) \<longrightarrow> fst r = 0 \<and> \<not> fst (snd r) \<and> ticks st < ticks st'
            \<and> expired api (ticks st' - 1))
      \<and> (\<forall>k. ticks st \<le> k \<and> k < ticks st' \<and> expired api k \<longrightarrow> snd (snd r) \<and> Suc k = ticks st'))"


text \<open>
  The two facts about the absent parts that the search relies on: \<open>undo\<close> takes back
  a legal \<open>play_move\<close> exactly (the round-trip law of the specification), and the
  shuffle returns only moves it was given.
\<close>

definition undo_inverts :: "('a go_board_scheme) solver_api \<Rightarrow> bool" where
  "undo_inverts api =
     (\<forall>b move. move \<in> set (generate_legal_moves api b (current_player b))
        \<longrightarrow> undo api (play_move api b move (current_player b)) = b)"

definition shuffle_keeps :: "('a go_board_scheme) solver_api \<Rightarrow> bool" where
  "shuffle_keeps api = (\<forall>md moves. set (shuffle api md moves) \<subseteq> set moves)"


section \<open>Concrete boards\<close>

text \<open>
  Modelled from the spec: \<open>board.py\<close> is not among the sources. A board of size \<open>n\<close>
  is created with every playable cell Empty and every border cell Border; the playable
  point of row \<open>r\<close> and column \<open>c\<close> (both from \<open>1\<close>) is \<open>r * (n + 1) + c\<close>, and the
  grid has \<open>n * n + 3 * (n + 1)\<close> cells. \<open>grid n stones\<close> is that grid with the listed
  stones placed.
\<close>

definition grid :: "int \<Rightarrow> (int \<times> int) list \<Rightarrow> int list" where
  "grid n stones =
     map (\<lambda>i. case map_of stones (int i) of
                 Some c \<Rightarrow> c
               | None \<Rightarrow>
                   (if 1 \<le> int i div (n + 1) \<and> int i div (n + 1) \<le> n
                       \<and> 1 \<le> int i mod (n + 1) \<and> int i mod (n + 1) \<le> n
                    then EMPTY else BORDER))
         [0..<nat (n * n + 3 * (n + 1))]"

definition new_board :: "int \<Rightarrow> (int \<times> int) list \<Rightarrow> int \<Rightarrow> go_board" where
  "new_board n stones player =
     \<lparr>board_size = n, NS = n + 1, board = grid n stones, current_player = player,
      last_move = PyNone\<rparr>"

text \<open>
  A 5x5 board: Black has just played point 9 (row 1, column 3); White stones stand on
  8 and 7; point 6 is the border cell at the left end of row 1.
\<close>

definition edge_position :: "go_board gtp_connection" where
  "edge_position =
     \<lparr>white_score = 0, black_score = 0,
      conn_board = new_board 5 [(9, BLACK), (8, WHITE), (7, WHITE)] WHITE\<rparr>"

text \<open>
  A 25x25 board: Black has just played point 155 (row 5, column 25). To its left stand
  White stones on 154 and 153 and a Black stone on 152; above it, in column 25, White
  stones on 181 and 207 and a Black stone on 233.
\<close>

definition corner_position :: "go_board gtp_connection" where
  "corner_position =
     \<lparr>white_score = 0, black_score = 0,
      conn_board = new_board 25
        [(155, BLACK), (154, WHITE), (153, WHITE), (152, BLACK),
         (181, WHITE), (207, WHITE), (233, BLACK)] WHITE\<rparr>"

text \<open>
  Modelled from the spec: a minimal board interface for concrete runs of the front end.
  A point is legal iff it is an Empty cell; playing sets the cell and flips the side to
  move; the board reports no winner; \<open>choice\<close> takes the first candidate.
\<close>

definition simple_api :: "go_board board_api" where
  "simple_api =
     \<lparr>result = (\<lambda>b. ''unknown''),
      get_empty_points = (\<lambda>b. filter (\<lambda>p. board b ! nat p = EMPTY) (map int [0..<length (board b)])),
      is_legal = (\<lambda>b p c. 0 \<le> p \<and> p < int (length (board b)) \<and> board b ! nat p = EMPTY),
      play_move = (\<lambda>b p c. b\<lparr>board := (board b)[nat p := c], current_player := opponent c\<rparr>),
      choice = hd\<rparr>"


text \<open>
  A 2x2 board with Black to move, stones on 7 and 8 and the points 4 and 5 empty, and
  playout outcomes for one playout per evaluation: the first evaluation of point 4 is a
  Black win and its other nine are White wins; every evaluation of point 5 is a draw.
\<close>

definition small_position :: go_board where
  "small_position = new_board 2 [(7, BLACK), (8, WHITE)] BLACK"

definition lucky_sim :: "nat \<Rightarrow> nat \<Rightarrow> nat \<Rightarrow> int" where
  "lucky_sim i j k = (if i = 0 then (if j = 0 then BLACK else WHITE) else EMPTY)"

section \<open>Boards given by an explicit game tree\<close>

text \<open>
  Modelled from the spec: a board whose positions are the nodes of an explicit game
  tree. A node holds the answer of \<open>isTerminal\<close> and, for every legal move (an Empty
  point), the position it leads to. \<open>playMove\<close> descends to the move's successor,
  pushes the position left onto the history and flips the side to move; \<open>undo\<close> pops
  the history; \<open>copy\<close> keeps the position and empties the history. The tactical
  shortcut proposes nothing on these boards.
\<close>

datatype gtree = GNode "bool \<times> int" "(int \<times> gtree) list"

fun gterm :: "gtree \<Rightarrow> bool \<times> int" where
  "gterm (GNode t kids) = t"

fun gkids :: "gtree \<Rightarrow> (int \<times> gtree) list" where
  "gkids (GNode t kids) = kids"

record tree_board = go_board +
  here :: gtree
  trail :: "gtree list"

definition tree_play :: "tree_board \<Rightarrow> int \<Rightarrow> int \<Rightarrow> tree_board" where
  "tree_play b move color =
     (case map_of (gkids (here b)) move of
        None \<Rightarrow> b
      | Some t \<Rightarrow> b\<lparr>current_player := opponent color, here := t, trail := here b # trail b\<rparr>)"

definition tree_undo :: "tree_board \<Rightarrow> tree_board" where
  "tree_undo b =
     (case trail b of
        [] \<Rightarrow> b
      | t # ts \<Rightarrow> b\<lparr>current_player := opponent (current_player b), here := t, trail := ts\<rparr>)"

definition tree_api :: "(nat \<Rightarrow> bool) \<Rightarrow> (int \<Rightarrow> int list \<Rightarrow> int list) \<Rightarrow> tree_board solver_api" where
  "tree_api clock shuf =
     \<lparr>result = (\<lambda>b. ''unknown''),
      get_empty_points = (\<lambda>b. map fst (gkids (here b))),
      is_legal = (\<lambda>b p c. p \<in> set (map fst (gkids (here b)))),
      play_move = tree_play,
      choice = hd,
      is_terminal = (\<lambda>b. gterm (here b)),
      generate_legal_moves = (\<lambda>b c. map fst (gkids (here b))),
      undo = tree_undo,
      get_potential_moves = (\<lambda>b. []),
      analyze = (\<lambda>b move. 0),
      check = (\<lambda>b. (PyStr ''unknown'', PyNone)),
      copy = (\<lambda>b. b\<lparr>trail := []\<rparr>),
      expired = clock,
      shuffle = shuf\<rparr>"

definition tree_position :: "int \<Rightarrow> int \<Rightarrow> gtree \<Rightarrow> tree_board" where
  "tree_position n player t =
     \<lparr>board_size = n, NS = n + 1, board = [], current_player = player, last_move = PyNone,
      here = t, trail = []\<rparr>"

definition idle_player :: "tree_board player" where
  "idle_player =
     \<lparr>pboard = tree_position 0 BLACK (GNode (False, EMPTY) []), best_move = PASS, max_depth = 0,
      ticks = 0\<rparr>"

text \<open>
  The game-theoretic value of a position for the side to move, by plain negamax over the
  whole tree: \<open>1\<close> a win, \<open>- 1\<close> a loss, \<open>0\<close> a draw.
\<close>

fun negamax :: "int \<Rightarrow> gtree \<Rightarrow> int" where
  "negamax player (GNode t kids) =
     (if fst t then
        (if snd t = player then 1 else if snd t = opponent player then - 1 else 0)
      else fold max (map (\<lambda>k. - negamax (opponent player) (snd k)) kids) (- 1))"

text \<open>
  A 2x2 position with Black to move and the points 4 and 5 empty. After 4 and 5 the
  board is full and the game drawn. After 5 and 4 (a capture of the stones on 7 and 8)
  Black is to move again and wins at once by playing 7.
\<close>

definition capture_line_tree :: gtree where
  "capture_line_tree =
     GNode (False, EMPTY)
       [(4, GNode (False, EMPTY) [(5, GNode (True, EMPTY) [])]),
        (5, GNode (False, EMPTY)
              [(4, GNode (False, EMPTY)
                     [(7, GNode (True, BLACK) []),
                      (8, GNode (False, EMPTY) [(7, GNode (True, EMPTY) [])])])])]"

definition never :: "nat \<Rightarrow> bool" where
  "never k = False"

definition in_order :: "int \<Rightarrow> int list \<Rightarrow> int list" where
  "in_order md moves = moves"

definition expires_at :: "nat \<Rightarrow> nat \<Rightarrow> bool" where
  "expires_at n k = (n \<le> k)"

text \<open>
  A position with Black to move and the three points 4, 5 and 7 empty; every line of
  play fills the board and ends in a draw. \<open>swap_second\<close> is a shuffle that leaves the
  root moves in order in the first iteration and exchanges the first two in the second.
\<close>

definition drawn_leaf :: gtree where
  "drawn_leaf = GNode (True, EMPTY) []"




section \<open>Verification\<close>

subsection \<open>Evaluation lemmas for the concrete boards\<close>

lemma grid_length: "length (grid n stones) = nat (n * n + 3 * (n + 1))"
  by (simp add: grid_def)

lemma grid_nth:
  "k < nat (n * n + 3 * (n + 1)) \<Longrightarrow>
   grid n stones ! k =
     (case map_of stones (int k) of
        Some c \<Rightarrow> c
      | None \<Rightarrow>
          (if 1 \<le> int k div (n + 1) \<and> int k div (n + 1) \<le> n
              \<and> 1 \<le> int k mod (n + 1) \<and> int k mod (n + 1) \<le> n
           then EMPTY else BORDER))"
  by (auto simp add: grid_def)

lemmas cst = EMPTY_def BLACK_def WHITE_def BORDER_def PASS_def MAXSIZE_def opponent_def py_bool_def

subsection \<open>Capture resolution\<close>

text \<open>
  Claim C2. A pair of opponent stones flanked by the just-played stone and, at the far
  end, by the border sentinel is to be captured. On the 5x5 board \<open>edge_position\<close> the
  White stones on 8 and 7 lie between Black's stone on 9 and the border cell 6, yet
  \<open>capture_stones\<close> changes neither the grid nor the scores: the flank test compares the
  Boolean \<open>_is_on_board (end2)\<close> with \<open>BORDER\<close>, which never holds.
\<close>

theorem capture_stones_ignores_border_flank:
  "capture_stones edge_position 9 BLACK = (edge_position, None)
   \<and> get_color (conn_board edge_position) 9 = BLACK
   \<and> get_color (conn_board edge_position) 8 = WHITE
   \<and> get_color (conn_board edge_position) 7 = WHITE
   \<and> get_color (conn_board edge_position) 6 = BORDER"
  by (simp add: capture_stones_def capture_direction_def directions_def edge_position_def
      new_board_def is_on_board_def maxpoint_def get_color_def grid_length grid_nth cst Let_def)

text \<open>
  Claim C7. The number of cells emptied by one move is to equal the capture count added
  for it. On the 25x25 board \<open>corner_position\<close> the direction \<open>-1\<close> captures the stones
  on 154 and 153; the direction \<open>NS\<close> then finds the pair on 181 and 207 in column 25,
  where \<open>format_point\<close> raises \<open>ValueError\<close> (its check wants \<open>col < MAXSIZE\<close>). The
  exception leaves \<open>capture_stones\<close> before the score is updated: two cells are emptied
  and Black's capture count is unchanged.
\<close>

theorem capture_stones_emptied_without_score:
  "capture_stones corner_position 155 BLACK =
     (corner_position\<lparr>conn_board := (conn_board corner_position)
        \<lparr>board := (board (conn_board corner_position))[154 := EMPTY, 153 := EMPTY]\<rparr>\<rparr>,
      Some ValueError)
   \<and> get_color (conn_board corner_position) 154 = WHITE
   \<and> get_color (conn_board corner_position) 153 = WHITE
   \<and> black_score (fst (capture_stones corner_position 155 BLACK)) = black_score corner_position"
  by (simp add: capture_stones_def capture_direction_def directions_def corner_position_def
      new_board_def is_on_board_def maxpoint_def get_color_def grid_length grid_nth cst Let_def
      set_empty_def point_to_coord_def format_point_def column_letters_def str_int_def
      str_nat.simps digit_char_def)

subsection \<open>Resignation in \<open>genmove_cmd\<close>\<close>

text \<open>
  Claim C8. A \<open>genmove\<close> request for the colour \<open>c\<close> (Black or White) is answered with
  \<open>resign\<close> whenever the opponent of \<open>c\<close> has a capture count of at least 10 or the
  board's result names the opponent. The connection state is returned as it was, for
  every board interface and every random choice: no move is generated or played.
\<close>

theorem genmove_resigns_when_opponent_won:
  assumes "color_to_int (lower arg0) = Some c" and "c = BLACK \<or> c = WHITE"
    and "(opponent c = WHITE \<and> (10 \<le> white_score st \<or> result api (conn_board st) = ''white''))
       \<or> (opponent c = BLACK \<and> (10 \<le> black_score st \<or> result api (conn_board st) = ''black''))"
  shows "genmove_cmd api st (arg0 # rest) = ([''resign''], st, None)"
  using assms
  by (auto simp add: genmove_cmd_def Let_def cst)

theorem genmove_resigns_witness:
  "genmove_cmd simple_api (edge_position\<lparr>black_score := 10\<rparr>) [''W''] =
     ([''resign''], edge_position\<lparr>black_score := 10\<rparr>, None)"
proof -
  have a: "color_to_int (lower ''W'') = Some WHITE"
    by (simp add: color_to_int_def lower_def lower_char_def)
  have b: "WHITE = BLACK \<or> WHITE = WHITE" by simp
  have c: "(opponent WHITE = WHITE \<and> (10 \<le> white_score (edge_position\<lparr>black_score := 10\<rparr>)
           \<or> result simple_api (conn_board (edge_position\<lparr>black_score := 10\<rparr>)) = ''white''))
       \<or> (opponent WHITE = BLACK \<and> (10 \<le> black_score (edge_position\<lparr>black_score := 10\<rparr>)
           \<or> result simple_api (conn_board (edge_position\<lparr>black_score := 10\<rparr>)) = ''black''))"
    by (simp add: cst)
  show ?thesis
    by (rule genmove_resigns_when_opponent_won [OF a b c])
qed

subsection \<open>The rollout player\<close>

lemma eval_index_eq:
  assumes "j < 10" "j' < 10" "10 * i' + j' < 10 * i + j + 1" "\<not> 10 * i' + j' < 10 * i + j"
  shows "i' = i \<and> j' = (j::nat)"
proof -
  have e: "10 * i' + j' = 10 * i + j" using assms(3,4) by linarith
  then have "(10 * i' + j') div 10 = (10 * i + j) div 10" by simp
  then have "i' = i" using assms(1,2) by simp
  with e show ?thesis by simp
qed

lemma eval_index_lt:
  assumes "j < 10" "10 * i + j < 10 * (N::nat)"
  shows "i < N"
proof (rule ccontr)
  assume "\<not> i < N"
  then have "N \<le> i" by simp
  then have "10 * N \<le> 10 * i" by simp
  with assms show False by linarith
qed

lemma eval_index_bound:
  assumes "j' < 10" "i' < (N::nat)"
  shows "10 * i' + j' < 10 * N"
proof -
  have "Suc i' \<le> N" using assms by simp
  then have "10 * Suc i' \<le> 10 * N" by (rule mult_le_mono2)
  with assms show ?thesis by simp
qed

lemma best_inv_step:
  assumes inv: "best_inv score moves (10 * i + j) best" and j: "j < 10"
    and sc: "score i j = Inr sc"
  shows "best_inv score moves (10 * i + j + 1)
           (if score_gt sc (fst best) then (Some sc, Some (moves ! i)) else best)"
proof (cases "score_gt sc (fst best)")
  case True
  have prev: "\<exists>s'. score i' j' = Inr s' \<and> s' < sc"
    if "j' < 10" "10 * i' + j' < 10 * i + j" for i' j'
  proof -
    from inv that obtain i0 j0 s0 where
      b: "best = (Some s0, Some (moves ! i0))"
      and all: "\<forall>i' j'. j' < 10 \<and> 10 * i' + j' < 10 * i + j \<longrightarrow>
               (\<exists>s'. score i' j' = Inr s' \<and> s' \<le> s0 \<and> (10 * i' + j' < 10 * i0 + j0 \<longrightarrow> s' < s0))"
      unfolding best_inv_def by auto
    from all that obtain s' where s': "score i' j' = Inr s'" "s' \<le> s0" by blast
    from True b have "s0 < sc" by (simp add: score_gt_def)
    with s' show ?thesis by auto
  qed
  have "\<forall>i' j'. j' < 10 \<and> 10 * i' + j' < 10 * i + j + 1 \<longrightarrow>
      (\<exists>s'. score i' j' = Inr s' \<and> s' \<le> sc \<and> (10 * i' + j' < 10 * i + j \<longrightarrow> s' < sc))"
  proof (intro allI impI)
    fix i' j' :: nat assume a: "j' < 10 \<and> 10 * i' + j' < 10 * i + j + 1"
    show "\<exists>s'. score i' j' = Inr s' \<and> s' \<le> sc \<and> (10 * i' + j' < 10 * i + j \<longrightarrow> s' < sc)"
    proof (cases "10 * i' + j' < 10 * i + j")
      case True
      from a have "j' < 10" by simp
      from prev [OF this True] obtain s' where "score i' j' = Inr s'" "s' < sc" by blast
      then show ?thesis by (intro exI [of _ s']) simp
    next
      case False
      with a j have "i' = i \<and> j' = j" by (intro eval_index_eq) auto
      then show ?thesis using sc False by simp
    qed
  qed
  then show ?thesis using True j sc unfolding best_inv_def
    by (intro disjI2) (simp, rule exI [of _ i], rule exI [of _ j], simp)
next
  case False
  then obtain s0 where b: "fst best = Some s0" and le: "sc \<le> s0"
    by (cases "fst best") (auto simp: score_gt_def)
  from inv b obtain i0 j0 where
    w: "j0 < 10" "10 * i0 + j0 < 10 * i + j" "best = (Some s0, Some (moves ! i0))"
       "score i0 j0 = Inr s0"
    and all: "\<forall>i' j'. j' < 10 \<and> 10 * i' + j' < 10 * i + j \<longrightarrow>
               (\<exists>s'. score i' j' = Inr s' \<and> s' \<le> s0 \<and> (10 * i' + j' < 10 * i0 + j0 \<longrightarrow> s' < s0))"
    unfolding best_inv_def by auto
  have "\<forall>i' j'. j' < 10 \<and> 10 * i' + j' < 10 * i + j + 1 \<longrightarrow>
      (\<exists>s'. score i' j' = Inr s' \<and> s' \<le> s0 \<and> (10 * i' + j' < 10 * i0 + j0 \<longrightarrow> s' < s0))"
  proof (intro allI impI)
    fix i' j' :: nat assume a: "j' < 10 \<and> 10 * i' + j' < 10 * i + j + 1"
    show "\<exists>s'. score i' j' = Inr s' \<and> s' \<le> s0 \<and> (10 * i' + j' < 10 * i0 + j0 \<longrightarrow> s' < s0)"
    proof (cases "10 * i' + j' < 10 * i + j")
      case True
      then show ?thesis using all a by blast
    next
      case False
      with a j have e: "i' = i \<and> j' = j" by (intro eval_index_eq) auto
      then show ?thesis using sc le w(2) by simp
    qed
  qed
  then show ?thesis using False w unfolding best_inv_def
    by (intro disjI2) (simp, rule exI [of _ i0], rule exI [of _ j0], simp)
qed

lemma genmove_inner_inv:
  assumes "genmove_inner (sim i) n state (moves ! i) [j0..<10] best = Inr best'"
    and "best_inv (\<lambda>i j. simulate (sim i j) n state (moves ! i)) moves (10 * i + j0) best"
    and "j0 \<le> 10"
  shows "best_inv (\<lambda>i j. simulate (sim i j) n state (moves ! i)) moves (10 * i + 10) best'"
  using assms
proof (induction "10 - j0" arbitrary: j0 best)
  case 0
  then show ?case by simp
next
  case (Suc d)
  then have lt: "j0 < 10" by simp
  then have upt: "[j0..<10] = j0 # [Suc j0..<10]" by (simp add: upt_conv_Cons)
  from Suc.prems(1) obtain sc where
    sc: "simulate (sim i j0) n state (moves ! i) = Inr sc"
    and rest: "genmove_inner (sim i) n state (moves ! i) [Suc j0..<10]
        (if score_gt sc (fst best) then (Some sc, Some (moves ! i)) else best) = Inr best'"
    unfolding upt by (auto split: sum.splits if_splits)
  have step: "best_inv (\<lambda>i j. simulate (sim i j) n state (moves ! i)) moves (10 * i + Suc j0)
        (if score_gt sc (fst best) then (Some sc, Some (moves ! i)) else best)"
    using best_inv_step [OF Suc.prems(2) lt, of sc] sc by simp
  show ?case
    using Suc.hyps(1) [of "Suc j0", OF _ rest step] Suc.hyps(2) lt by simp
qed

lemma genmove_outer_inv:
  assumes "genmove_outer sim n state moves [i0..<N] best = Inr best'"
    and "best_inv (\<lambda>i j. simulate (sim i j) n state (moves ! i)) moves (10 * i0) best"
    and "i0 \<le> N"
  shows "best_inv (\<lambda>i j. simulate (sim i j) n state (moves ! i)) moves (10 * N) best'"
  using assms
proof (induction "N - i0" arbitrary: i0 best)
  case 0
  then show ?case by simp
next
  case (Suc d)
  then have lt: "i0 < N" by simp
  then have upt: "[i0..<N] = i0 # [Suc i0..<N]" by (simp add: upt_conv_Cons)
  from Suc.prems(1) obtain mid where
    inner: "genmove_inner (sim i0) n state (moves ! i0) [0..<10] best = Inr mid"
    and rest: "genmove_outer sim n state moves [Suc i0..<N] mid = Inr best'"
    unfolding upt by (auto split: sum.splits)
  have e: "10 * i0 + 10 = 10 * Suc i0" by simp
  have "best_inv (\<lambda>i j. simulate (sim i j) n state (moves ! i)) moves (10 * i0 + 10) mid"
    using genmove_inner_inv [of sim i0 n state moves 0 best mid] inner Suc.prems(2) by simp
  then have step: "best_inv (\<lambda>i j. simulate (sim i j) n state (moves ! i)) moves (10 * Suc i0) mid"
    unfolding e .
  show ?case
    using Suc.hyps(1) [of "Suc i0", OF _ rest step] Suc.hyps(2) lt by simp
qed

lemma tally_counts:
  "list_all (\<lambda>k. rollouts k = EMPTY \<or> rollouts k = BLACK \<or> rollouts k = WHITE) ks \<Longrightarrow>
   tally rollouts ks [a, b, c] =
     Inr [a + int (length (filter (\<lambda>k. rollouts k = EMPTY) ks)),
          b + int (length (filter (\<lambda>k. rollouts k = BLACK) ks)),
          c + int (length (filter (\<lambda>k. rollouts k = WHITE) ks))]"
proof (induction ks arbitrary: a b c)
  case Nil
  then show ?case by simp
next
  case (Cons k ks)
  then have rest: "list_all (\<lambda>k. rollouts k = EMPTY \<or> rollouts k = BLACK \<or> rollouts k = WHITE) ks"
    and k: "rollouts k = EMPTY \<or> rollouts k = BLACK \<or> rollouts k = WHITE"
    by simp_all
  from k show ?case
  proof (elim disjE)
    assume e: "rollouts k = EMPTY"
    then have "py_incr [a, b, c] (rollouts k) = Inr [a + 1, b, c]"
      by (simp add: py_incr_def EMPTY_def)
    then show ?thesis using Cons.IH [OF rest, of "a + 1" b c] e
      by (simp add: EMPTY_def BLACK_def WHITE_def)
  next
    assume e: "rollouts k = BLACK"
    then have "py_incr [a, b, c] (rollouts k) = Inr [a, b + 1, c]"
      by (simp add: py_incr_def BLACK_def)
    then show ?thesis using Cons.IH [OF rest, of a "b + 1" c] e
      by (simp add: EMPTY_def BLACK_def WHITE_def)
  next
    assume e: "rollouts k = WHITE"
    then have "py_incr [a, b, c] (rollouts k) = Inr [a, b, c + 1]"
      by (simp add: py_incr_def WHITE_def)
    then show ?thesis using Cons.IH [OF rest, of a b "c + 1"] e
      by (simp add: EMPTY_def BLACK_def WHITE_def)
  qed
qed

lemma three_way_count:
  "list_all (\<lambda>k. rollouts k = EMPTY \<or> rollouts k = BLACK \<or> rollouts k = WHITE) ks \<Longrightarrow>
   length (filter (\<lambda>k. rollouts k = EMPTY) ks) + length (filter (\<lambda>k. rollouts k = BLACK) ks)
     + length (filter (\<lambda>k. rollouts k = WHITE) ks) = length ks"
  by (induction ks) (auto simp add: EMPTY_def BLACK_def WHITE_def)

lemma simulate_score:
  assumes n: "1 \<le> numSimulations"
    and ok: "\<forall>k. rollouts k = EMPTY \<or> rollouts k = BLACK \<or> rollouts k = WHITE"
  shows "simulate rollouts numSimulations state move
           = Inr (rollout_score rollouts numSimulations state)"
proof -
  let ?ks = "[0..<nat numSimulations]"
  let ?e = "length (filter (\<lambda>k. rollouts k = EMPTY) ?ks)"
  let ?b = "length (filter (\<lambda>k. rollouts k = BLACK) ?ks)"
  let ?w = "length (filter (\<lambda>k. rollouts k = WHITE) ?ks)"
  have all: "list_all (\<lambda>k. rollouts k = EMPTY \<or> rollouts k = BLACK \<or> rollouts k = WHITE) ?ks"
    using ok by (simp add: list_all_iff)
  have t: "tally rollouts ?ks [0, 0, 0] = Inr [int ?e, int ?b, int ?w]"
    using tally_counts [OF all, of 0 0 0] by simp
  have "?e + ?b + ?w = length ?ks" by (rule three_way_count [OF all])
  then have "int (?e + ?b + ?w) = int (length ?ks)" by (rule arg_cong)
  then have "int ?e + int ?b + int ?w = int (nat numSimulations)" by (simp only: of_nat_add length_upt diff_zero)
  then have s: "sum_list [int ?e, int ?b, int ?w] = numSimulations" using n by simp
  have nz: "numSimulations \<noteq> 0" using n by simp
  show ?thesis
    unfolding simulate_def t rollout_score_def Let_def
    using s nz by (simp add: BLACK_def EMPTY_def)
qed


lemma genmove_inner_total:
  assumes "\<forall>j. \<exists>s. simulate (evals j) n state move = Inr s"
  shows "\<exists>best'. genmove_inner evals n state move js best = Inr best'"
proof (induction js arbitrary: best)
  case Nil
  then show ?case by simp
next
  case (Cons j js)
  from assms obtain s where s: "simulate (evals j) n state move = Inr s" by blast
  show ?case
  proof (cases "score_gt s (fst best)")
    case True
    then show ?thesis using s Cons.IH [of "(Some s, Some move)"] by simp
  next
    case False
    then show ?thesis using s Cons.IH [of best] by simp
  qed
qed

lemma genmove_outer_total:
  assumes "\<forall>i j. \<exists>s. simulate (sim i j) n state (moves ! i) = Inr s"
  shows "\<exists>best'. genmove_outer sim n state moves idxs best = Inr best'"
proof (induction idxs arbitrary: best)
  case Nil
  then show ?case by simp
next
  case (Cons i idxs)
  have "\<forall>j. \<exists>s. simulate (sim i j) n state (moves ! i) = Inr s" using assms by blast
  from genmove_inner_total [OF this, of "[0..<10]" best]
  obtain mid where "genmove_inner (sim i) n state (moves ! i) [0..<10] best = Inr mid" by blast
  then show ?case using Cons.IH [of mid] by simp
qed

text \<open>
  Claim C6, as amended. On a non-terminal board with at least one empty point, with
  \<open>numSimulations\<close> at least 1 and every playout reporting Empty, Black or White,
  \<open>genmove\<close> returns an empty point. Each of the ten evaluations of a candidate scores
  (black wins + draws / 2) / \<open>numSimulations\<close> over its own playouts, complemented for
  White (\<open>rollout_score\<close>). The point returned is the candidate of the earliest
  evaluation, in the order of candidates and then evaluations, whose score is maximal
  among all evaluations of all candidates: every evaluation scores at most as much, every
  earlier one strictly less.
\<close>

theorem genmove_returns_first_best_evaluation:
  assumes live: "\<not> end_of_game state"
    and some: "get_empty_points api state \<noteq> []"
    and n: "1 \<le> n"
    and ok: "\<forall>i j k. sim i j k = EMPTY \<or> sim i j k = BLACK \<or> sim i j k = WHITE"
  shows "\<exists>i j. i < length (get_empty_points api state) \<and> j < 10
           \<and> genmove api end_of_game sim n state = Inr (get_empty_points api state ! i)
           \<and> (\<forall>i' j'. i' < length (get_empty_points api state) \<and> j' < 10 \<longrightarrow>
                rollout_score (sim i' j') n state \<le> rollout_score (sim i j) n state
                \<and> (10 * i' + j' < 10 * i + j \<longrightarrow>
                     rollout_score (sim i' j') n state < rollout_score (sim i j) n state))"
proof -
  let ?moves = "get_empty_points api state"
  let ?score = "\<lambda>i j. simulate (sim i j) n state (?moves ! i)"
  have sc: "simulate (sim i j) n state m = Inr (rollout_score (sim i j) n state)" for i j m
    using simulate_score [OF n, of "sim i j" state m] ok by blast
  then have tot: "\<forall>i j. \<exists>s. simulate (sim i j) n state (?moves ! i) = Inr s" by blast
  from genmove_outer_total [OF tot, of "[0..<length ?moves]" "(None, None)"]
  obtain best where run: "genmove_outer sim n state ?moves [0..<length ?moves] (None, None) = Inr best"
    by blast
  have "best_inv ?score ?moves (10 * 0) (None, None)"
    by (simp add: best_inv_def)
  from genmove_outer_inv [OF run this]
  have inv: "best_inv ?score ?moves (10 * length ?moves) best" by simp
  have pos: "10 * length ?moves \<noteq> 0" using some by simp
  from inv pos obtain i j s where
    w: "j < 10" "10 * i + j < 10 * length ?moves" "best = (Some s, Some (?moves ! i))"
       "?score i j = Inr s"
    and all: "\<forall>i' j'. j' < 10 \<and> 10 * i' + j' < 10 * length ?moves \<longrightarrow>
               (\<exists>s'. ?score i' j' = Inr s' \<and> s' \<le> s \<and> (10 * i' + j' < 10 * i + j \<longrightarrow> s' < s))"
    unfolding best_inv_def by blast
  have i: "i < length ?moves" using w(1,2) by (rule eval_index_lt)
  then have mem: "?moves ! i \<in> set ?moves" by simp
  have res: "genmove api end_of_game sim n state = Inr (?moves ! i)"
    using live run w(3) mem by (simp add: genmove_def Let_def)
  have s: "s = rollout_score (sim i j) n state" using w(4) sc [of i j "?moves ! i"] by simp
  have best: "\<forall>i' j'. i' < length ?moves \<and> j' < 10 \<longrightarrow>
      rollout_score (sim i' j') n state \<le> rollout_score (sim i j) n state
      \<and> (10 * i' + j' < 10 * i + j \<longrightarrow>
           rollout_score (sim i' j') n state < rollout_score (sim i j) n state)"
  proof (intro allI impI)
    fix i' j' :: nat assume a: "i' < length ?moves \<and> j' < 10"
    then have "10 * i' + j' < 10 * length ?moves" by (intro eval_index_bound) auto
    with all a obtain s' where s': "?score i' j' = Inr s'" "s' \<le> s"
      "10 * i' + j' < 10 * i + j \<longrightarrow> s' < s" by blast
    have "s' = rollout_score (sim i' j') n state" using s'(1) sc [of i' j' "?moves ! i'"] by simp
    then show "rollout_score (sim i' j') n state \<le> rollout_score (sim i j) n state
      \<and> (10 * i' + j' < 10 * i + j \<longrightarrow>
           rollout_score (sim i' j') n state < rollout_score (sim i j) n state)"
      using s' s by simp
  qed
  show ?thesis using i w(1) res best by blast
qed

theorem genmove_first_best_witness:
  "\<exists>i j. i < length (get_empty_points simple_api small_position) \<and> j < 10
     \<and> genmove simple_api (\<lambda>b. False) lucky_sim 1 small_position
         = Inr (get_empty_points simple_api small_position ! i)
     \<and> (\<forall>i' j'. i' < length (get_empty_points simple_api small_position) \<and> j' < 10 \<longrightarrow>
          rollout_score (lucky_sim i' j') 1 small_position
            \<le> rollout_score (lucky_sim i j) 1 small_position
          \<and> (10 * i' + j' < 10 * i + j \<longrightarrow>
               rollout_score (lucky_sim i' j') 1 small_position
                 < rollout_score (lucky_sim i j) 1 small_position))"
proof -
  have live: "\<not> (\<lambda>b. False) small_position" by simp
  have some: "get_empty_points simple_api small_position \<noteq> []" by code_simp
  have n: "(1::int) \<le> 1" by simp
  have ok: "\<forall>i j k. lucky_sim i j k = EMPTY \<or> lucky_sim i j k = BLACK \<or> lucky_sim i j k = WHITE"
    by (simp add: lucky_sim_def)
  show ?thesis
    by (rule genmove_returns_first_best_evaluation [OF live some n ok])
qed

text \<open>
  Claim C6, as stated, fails. With one playout per evaluation, point 4 wins its first
  evaluation and loses the other nine (aggregate score 1/10) and point 5 draws all ten
  (aggregate score 1/2): \<open>genmove\<close> returns point 4, whose best single evaluation
  scored 1, not the point with the highest aggregate score.
\<close>

theorem genmove_not_highest_aggregate:
  "genmove simple_api (\<lambda>b. False) lucky_sim 1 small_position = Inr 4
   \<and> get_empty_points simple_api small_position = [4, 5]
   \<and> spec_aggregate_score lucky_sim 1 small_position 0 = 1 / 10
   \<and> spec_aggregate_score lucky_sim 1 small_position 1 = 1 / 2"
  by code_simp

subsection \<open>The solver: soundness of results marked solved\<close>

text \<open>
  Claim C1. A result marked solved is to be the game-theoretic value. On the 2x2
  position \<open>capture_line_tree\<close>, with a clock that never expires and the root moves in
  their given order, \<open>solve_board\<close> stops after the iteration with depth limit 2 and
  reports a proven draw with move \<open>a1\<close>, while the negamax value of the position is a
  win for Black. In that iteration the call for the second root move, with window
  \<open>(- 1, 0)\<close>, returns \<open>(0, True, False)\<close> from the test \<open>value >= beta\<close> although its
  only explored child hit the depth limit and returned \<open>(0, False, False)\<close>.
\<close>

theorem solve_board_reports_unproven_draw:
  "map_option fst (solve_board (tree_api never in_order) idle_player
       (tree_position 2 BLACK capture_line_tree))
     = Some (Inr (PyStr ''draw'', PyStr ''a1''))
   \<and> negamax BLACK capture_line_tree = 1
   \<and> fst (alpha_beta (tree_api never in_order) 2 (- 1) 0 1
        (ab_play (tree_api never in_order) 5
           (idle_player\<lparr>pboard := tree_position 2 BLACK capture_line_tree\<rparr>))) = (0, True, False)
   \<and> fst (alpha_beta (tree_api never in_order) 2 0 1 2
        (ab_play (tree_api never in_order) 4 (ab_play (tree_api never in_order) 5
           (idle_player\<lparr>pboard := tree_position 2 BLACK capture_line_tree\<rparr>)))) = (0, False, False)"
  by code_simp

subsection \<open>The solver: the deadline\<close>

lemma ab_entry_ticks: "ticks (snd (ab_entry api st)) = Suc (ticks st)"
  by (simp add: ab_entry_def Let_def split: prod.splits)

lemma ab_entry_expired:
  "expired api (ticks st) \<Longrightarrow> ab_entry api st = (Some (0, False, True), st\<lparr>ticks := Suc (ticks st)\<rparr>)"
  by (simp add: ab_entry_def)

lemma ab_entry_Some:
  "ab_entry api st = (Some r, st') \<Longrightarrow> \<not> expired api (ticks st) \<Longrightarrow> \<not> snd (snd r)"
  by (auto simp add: ab_entry_def Let_def split: prod.splits if_splits)

lemma ab_entry_None:
  "ab_entry api st = (None, st') \<Longrightarrow> \<not> expired api (ticks st)"
  by (auto simp add: ab_entry_def Let_def split: prod.splits if_splits)

lemma ab_play_ticks: "ticks (ab_play api move st) = ticks st"
  by (simp add: ab_play_def)

lemma ab_child_Inl_timeout:
  "snd (snd (fst c)) \<Longrightarrow>
   ab_child api alpha beta depth move au c =
     Inl ((0, False, True), (snd c)\<lparr>pboard := undo api (pboard (snd c))\<rparr>)"
  by (cases c) (auto simp add: ab_child_def Let_def)

lemma ab_child_Inl:
  "ab_child api alpha beta depth move au (r, st2) = Inl (r', st') \<Longrightarrow>
   ticks st' = ticks st2 \<and> (snd (snd r') = snd (snd r))
   \<and> (snd (snd r') \<longrightarrow> fst r' = 0 \<and> \<not> fst (snd r'))"
  by (auto simp add: ab_child_def Let_def split: prod.splits if_splits)

lemma ab_child_Inr:
  "ab_child api alpha beta depth move au (r, st2) = Inr (alpha', au', st') \<Longrightarrow>
   ticks st' = ticks st2 \<and> \<not> snd (snd r)"
  by (auto simp add: ab_child_def Let_def split: prod.splits if_splits)

lemma clock_ok_trans:
  assumes a: "clock_ok api st r1 st1" and n: "\<not> snd (snd r1)" and e: "ticks st1' = ticks st1"
    and b: "clock_ok api st1' r2 st2"
  shows "clock_ok api st r2 st2"
proof -
  have le1: "ticks st \<le> ticks st1" using a by (simp add: clock_ok_def)
  have le2: "ticks st1 \<le> ticks st2" using b e by (simp add: clock_ok_def)
  have no: "\<not> expired api k" if "ticks st \<le> k" "k < ticks st1" for k
    using a n that unfolding clock_ok_def by blast
  have t2: "fst r2 = 0 \<and> \<not> fst (snd r2) \<and> ticks st1 < ticks st2 \<and> expired api (ticks st2 - 1)"
    if "snd (snd r2)"
    using b e that unfolding clock_ok_def by simp
  have ex: "snd (snd r2) \<and> Suc k = ticks st2" if "ticks st1 \<le> k" "k < ticks st2" "expired api k" for k
    using b e that unfolding clock_ok_def by simp
  have c1: "ticks st \<le> ticks st2" using le1 le2 by simp
  have c2: "snd (snd r2) \<longrightarrow> fst r2 = 0 \<and> \<not> fst (snd r2) \<and> ticks st < ticks st2
      \<and> expired api (ticks st2 - 1)"
    using t2 le1 by auto
  have c3: "\<forall>k. ticks st \<le> k \<and> k < ticks st2 \<and> expired api k \<longrightarrow> snd (snd r2) \<and> Suc k = ticks st2"
  proof (intro allI impI)
    fix k assume h: "ticks st \<le> k \<and> k < ticks st2 \<and> expired api k"
    have "\<not> k < ticks st1" using no [of k] h by blast
    then have "ticks st1 \<le> k" by simp
    then show "snd (snd r2) \<and> Suc k = ticks st2" using ex [of k] h by blast
  qed
  show ?thesis unfolding clock_ok_def using c1 c2 c3 by blast
qed

lemma alpha_beta_clock:
  "clock_ok api st (fst (alpha_beta api md alpha beta depth st)) (snd (alpha_beta api md alpha beta depth st))
   \<and> ticks st < ticks (snd (alpha_beta api md alpha beta depth st))"
  and ab_loop_clock:
  "clock_ok api st (fst (ab_loop api md alpha beta depth moves au st)) (snd (ab_loop api md alpha beta depth moves au st))"
proof (induction api md alpha beta depth st and api md alpha beta depth moves au st
    rule: alpha_beta_ab_loop.induct)
  case (1 api md alpha beta depth st)
  obtain ro st' where e: "ab_entry api st = (ro, st')" by (cases "ab_entry api st")
  have t: "ticks st' = Suc (ticks st)" using ab_entry_ticks [of api st] e by simp
  show ?case
  proof (cases ro)
    case (Some r)
    have eq: "alpha_beta api md alpha beta depth st = (r, st')"
      using e Some by (simp add: alpha_beta.simps)
    show ?thesis
    proof (cases "expired api (ticks st)")
      case True
      then have "r = (0, False, True)" using e Some ab_entry_expired [of api st] by simp
      then have "clock_ok api st r st'" using t True by (auto simp add: clock_ok_def)
      then show ?thesis using eq t by simp
    next
      case False
      then have "\<not> snd (snd r)" using ab_entry_Some e Some by blast
      then have "clock_ok api st r st'" using t False
        by (auto simp add: clock_ok_def less_Suc_eq_le)
      then show ?thesis using eq t by simp
    qed
  next
    case None
    have ne: "\<not> expired api (ticks st)" using ab_entry_None e None by blast
    have base: "clock_ok api st (0, False, False) st'"
      using t ne by (auto simp add: clock_ok_def less_Suc_eq_le)
    show ?thesis
    proof (cases "depth \<ge> md")
      case True
      then have eq: "alpha_beta api md alpha beta depth st = ((0, False, False), st')"
        using e None by (simp add: alpha_beta.simps)
      show ?thesis using eq t base by simp
    next
      case False
      let ?l = "ab_loop api md alpha beta depth (ab_moves api md depth st') False st'"
      have eq: "alpha_beta api md alpha beta depth st = ?l"
        using e None False by (simp add: alpha_beta.simps)
      have ih: "clock_ok api st' (fst ?l) (snd ?l)"
        using "1.IH" [of ro st'] e [symmetric] None False by simp
      have "clock_ok api st (fst ?l) (snd ?l)"
        by (rule clock_ok_trans [OF base _ _ ih]) simp_all
      moreover have "ticks st < ticks (snd ?l)"
        using ih t by (simp add: clock_ok_def)
      ultimately show ?thesis unfolding eq by simp
    qed
  qed
next
  case (2 api md alpha beta depth any_unsolved st)
  then show ?case by (simp add: ab_loop.simps(1) clock_ok_def)
next
  case (3 api md alpha beta depth move moves any_unsolved st)
  let ?c = "alpha_beta api md (- beta) (- alpha) (depth + 1) (ab_play api move st)"
  obtain r st2 where c: "?c = (r, st2)" by (cases ?c)
  have ihc: "clock_ok api (ab_play api move st) r st2"
    using "3.IH"(1) c by simp
  then have ihc': "clock_ok api st r st2"
    by (simp add: clock_ok_def ab_play_ticks)
  show ?case
  proof (cases "ab_child api alpha beta depth move any_unsolved (r, st2)")
    case (Inl a)
    obtain r' st' where a: "a = (r', st')" by (cases a)
    have eq: "ab_loop api md alpha beta depth (move # moves) any_unsolved st = (r', st')"
      using Inl a c by (simp add: ab_loop.simps(2))
    have "ticks st' = ticks st2 \<and> (snd (snd r') = snd (snd r))
        \<and> (snd (snd r') \<longrightarrow> fst r' = 0 \<and> \<not> fst (snd r'))"
      using ab_child_Inl Inl a by blast
    then have "clock_ok api st r' st'"
      using ihc' unfolding clock_ok_def by simp
    then show ?thesis unfolding eq by simp
  next
    case (Inr b)
    obtain alpha' au' st' where b: "b = (alpha', au', st')" by (cases b)
    let ?l = "ab_loop api md alpha' beta depth moves au' st'"
    have eq: "ab_loop api md alpha beta depth (move # moves) any_unsolved st = ?l"
      using Inr b c by (simp add: ab_loop.simps(2))
    have f: "ticks st' = ticks st2 \<and> \<not> snd (snd r)"
      using ab_child_Inr Inr b by blast
    have ih: "clock_ok api st' (fst ?l) (snd ?l)"
      using "3.IH"(2) [of "(alpha', au', st')" alpha' "(au', st')" au' st'] Inr b c by simp
    have "clock_ok api st (fst ?l) (snd ?l)"
      using clock_ok_trans [OF ihc' _ _ ih] f by simp
    then show ?thesis unfolding eq by simp
  qed
qed

text \<open>
  Claim C4. In every call of \<open>alpha_beta\<close>: if the deadline test at entry finds the
  deadline expired, the call returns \<open>(0, False, True)\<close> having done nothing but that
  test; the call reports a timeout exactly when one of the deadline tests made during
  it, at whatever depth, found the deadline expired; a test that found the deadline
  expired is the last test the call makes, so nothing is searched after it; a reported
  timeout always comes with value \<open>0\<close> and \<open>solved = False\<close>; and when the call for a
  child reports a timeout, the loop of the caller returns \<open>(0, False, True)\<close> at once:
  its final state is the state the child returned with the one \<open>undo\<close> applied, whatever
  moves remain.
\<close>

theorem alpha_beta_timeout_propagates:
  assumes "alpha_beta api md alpha beta depth st = ((v, solved, timeout), st')"
  shows "(expired api (ticks st) \<longrightarrow>
            v = 0 \<and> \<not> solved \<and> timeout \<and> st' = st\<lparr>ticks := Suc (ticks st)\<rparr>)
       \<and> (timeout \<longleftrightarrow> (\<exists>k. ticks st \<le> k \<and> k < ticks st' \<and> expired api k))
       \<and> (\<forall>k. ticks st \<le> k \<and> k < ticks st' \<and> expired api k \<longrightarrow> Suc k = ticks st')
       \<and> (timeout \<longrightarrow> v = 0 \<and> \<not> solved)
       \<and> (\<forall>move moves any_unsolved s.
             snd (snd (fst (alpha_beta api md (- beta) (- alpha) (depth + 1) (ab_play api move s))))
             \<longrightarrow> ab_loop api md alpha beta depth (move # moves) any_unsolved s
                   = ((0, False, True),
                      (snd (alpha_beta api md (- beta) (- alpha) (depth + 1) (ab_play api move s)))
                        \<lparr>pboard := undo api (pboard (snd (alpha_beta api md (- beta) (- alpha)
                                     (depth + 1) (ab_play api move s))))\<rparr>))"
proof -
  have ck: "clock_ok api st (v, solved, timeout) st'" and lt: "ticks st < ticks st'"
    using alpha_beta_clock [of api st md alpha beta depth] assms by simp_all
  have c1: "expired api (ticks st) \<longrightarrow>
      v = 0 \<and> \<not> solved \<and> timeout \<and> st' = st\<lparr>ticks := Suc (ticks st)\<rparr>"
  proof
    assume x: "expired api (ticks st)"
    have "alpha_beta api md alpha beta depth st = ((0, False, True), st\<lparr>ticks := Suc (ticks st)\<rparr>)"
      using ab_entry_expired [OF x] by (simp add: alpha_beta.simps)
    with assms show "v = 0 \<and> \<not> solved \<and> timeout \<and> st' = st\<lparr>ticks := Suc (ticks st)\<rparr>"
      by simp
  qed
  have c2: "timeout \<longleftrightarrow> (\<exists>k. ticks st \<le> k \<and> k < ticks st' \<and> expired api k)"
  proof
    assume timeout
    then have "ticks st < ticks st' \<and> expired api (ticks st' - 1)"
      using ck by (simp add: clock_ok_def)
    then show "\<exists>k. ticks st \<le> k \<and> k < ticks st' \<and> expired api k"
      by (intro exI [of _ "ticks st' - 1"]) auto
  next
    assume "\<exists>k. ticks st \<le> k \<and> k < ticks st' \<and> expired api k"
    then show timeout using ck unfolding clock_ok_def by auto
  qed
  have c3: "\<forall>k. ticks st \<le> k \<and> k < ticks st' \<and> expired api k \<longrightarrow> Suc k = ticks st'"
    using ck unfolding clock_ok_def by blast
  have c4: "timeout \<longrightarrow> v = 0 \<and> \<not> solved"
    using ck by (simp add: clock_ok_def)
  have c5: "\<forall>move moves any_unsolved s.
             snd (snd (fst (alpha_beta api md (- beta) (- alpha) (depth + 1) (ab_play api move s))))
             \<longrightarrow> ab_loop api md alpha beta depth (move # moves) any_unsolved s
                   = ((0, False, True),
                      (snd (alpha_beta api md (- beta) (- alpha) (depth + 1) (ab_play api move s)))
                        \<lparr>pboard := undo api (pboard (snd (alpha_beta api md (- beta) (- alpha)
                                     (depth + 1) (ab_play api move s))))\<rparr>)"
    by (simp add: ab_child_Inl_timeout)
  from c1 c2 c3 c4 c5 show ?thesis by blast
qed

theorem alpha_beta_timeout_witness:
  "alpha_beta (tree_api (expires_at 2) in_order) 2 (- 1) 1 0
       (idle_player\<lparr>pboard := tree_position 2 BLACK capture_line_tree\<rparr>)
     = ((0, False, True),
        idle_player\<lparr>pboard := tree_position 2 BLACK capture_line_tree, ticks := 3\<rparr>)
   \<and> expires_at 2 2 \<and> \<not> expires_at 2 1 \<and> \<not> expires_at 2 0
   \<and> ab_loop (tree_api (expires_at 2) in_order) 2 (- 1) 1 0 [4, 5] False
         (idle_player\<lparr>pboard := tree_position 2 BLACK capture_line_tree, ticks := 1\<rparr>)
     = ((0, False, True),
        idle_player\<lparr>pboard := tree_position 2 BLACK capture_line_tree, ticks := 3\<rparr>)"
proof -
  let ?api = "tree_api (expires_at 2) in_order"
  let ?st = "idle_player\<lparr>pboard := tree_position 2 BLACK capture_line_tree\<rparr>"
  let ?child = "alpha_beta ?api 2 (- 1) (- (- 1)) (0 + 1) (ab_play ?api 4 (?st\<lparr>ticks := 1\<rparr>))"
  have run: "alpha_beta ?api 2 (- 1) 1 0 ?st = ((0, False, True), ?st\<lparr>ticks := 3\<rparr>)"
    by code_simp
  have child: "snd (snd (fst ?child))"
    by code_simp
  have post: "(snd ?child)\<lparr>pboard := undo ?api (pboard (snd ?child))\<rparr> = ?st\<lparr>ticks := 3\<rparr>"
    by code_simp
  have clk: "expires_at 2 2 \<and> \<not> expires_at 2 1 \<and> \<not> expires_at 2 0"
    by (simp add: expires_at_def)
  have "ab_loop ?api 2 (- 1) 1 0 [4, 5] False (?st\<lparr>ticks := 1\<rparr>)
      = ((0, False, True), (snd ?child)\<lparr>pboard := undo ?api (pboard (snd ?child))\<rparr>)"
    using alpha_beta_timeout_propagates [OF run] child by blast
  then show ?thesis using run clk unfolding post by simp
qed

subsection \<open>The solver: the board is restored\<close>

lemma ab_entry_pboard: "pboard (snd (ab_entry api st)) = pboard st"
  by (simp add: ab_entry_def Let_def split: prod.splits)

lemma ab_moves_legal:
  "shuffle_keeps api \<Longrightarrow> pboard st' = pboard st \<Longrightarrow>
   set (ab_moves api md depth st') \<subseteq> set (generate_legal_moves api (pboard st) (current_player (pboard st)))"
  by (auto simp add: ab_moves_def shuffle_keeps_def Let_def)

lemma ab_child_Inl_pboard:
  "ab_child api alpha beta depth move au (r, st2) = Inl (r', st') \<Longrightarrow>
   pboard st' = undo api (pboard st2)"
  by (auto simp add: ab_child_def Let_def split: if_splits prod.splits)

lemma ab_child_Inr_pboard:
  "ab_child api alpha beta depth move au (r, st2) = Inr (alpha', au', st') \<Longrightarrow>
   pboard st' = undo api (pboard st2)"
  by (auto simp add: ab_child_def Let_def split: if_splits prod.splits)

lemma alpha_beta_pboard:
  "undo_inverts api \<Longrightarrow> shuffle_keeps api \<Longrightarrow>
   pboard (snd (alpha_beta api md alpha beta depth st)) = pboard st"
  and ab_loop_pboard:
  "undo_inverts api \<Longrightarrow> shuffle_keeps api \<Longrightarrow>
   set moves \<subseteq> set (generate_legal_moves api (pboard st) (current_player (pboard st))) \<Longrightarrow>
   pboard (snd (ab_loop api md alpha beta depth moves au st)) = pboard st"
proof (induction api md alpha beta depth st and api md alpha beta depth moves au st
    rule: alpha_beta_ab_loop.induct)
  case (1 api md alpha beta depth st)
  obtain ro st' where e: "ab_entry api st = (ro, st')" by (cases "ab_entry api st")
  have p: "pboard st' = pboard st" using ab_entry_pboard [of api st] e by simp
  show ?case
  proof (cases ro)
    case (Some r)
    then show ?thesis using e p by (simp add: alpha_beta.simps)
  next
    case None
    show ?thesis
    proof (cases "depth \<ge> md")
      case True
      then show ?thesis using e None p by (simp add: alpha_beta.simps)
    next
      case False
      let ?l = "ab_loop api md alpha beta depth (ab_moves api md depth st') False st'"
      have eq: "alpha_beta api md alpha beta depth st = ?l"
        using e None False by (simp add: alpha_beta.simps)
      have m: "set (ab_moves api md depth st')
          \<subseteq> set (generate_legal_moves api (pboard st') (current_player (pboard st')))"
        using ab_moves_legal [OF "1.prems"(2), of st' st'] by simp
      have "pboard (snd ?l) = pboard st'"
        using "1.IH" [of ro st', OF e [symmetric] None False "1.prems" m] .
      then show ?thesis unfolding eq using p by simp
    qed
  qed
next
  case (2 api md alpha beta depth any_unsolved st)
  then show ?case by simp
next
  case (3 api md alpha beta depth move moves any_unsolved st)
  let ?c = "alpha_beta api md (- beta) (- alpha) (depth + 1) (ab_play api move st)"
  obtain r st2 where c: "?c = (r, st2)" by (cases ?c)
  have legal: "move \<in> set (generate_legal_moves api (pboard st) (current_player (pboard st)))"
    using "3.prems"(3) by simp
  have "pboard st2 = pboard (ab_play api move st)"
    using "3.IH"(1) [OF "3.prems"(1,2)] c by simp
  then have u: "undo api (pboard st2) = pboard st"
    using "3.prems"(1) legal by (simp add: ab_play_def undo_inverts_def)
  show ?case
  proof (cases "ab_child api alpha beta depth move any_unsolved (r, st2)")
    case (Inl a)
    obtain r' st' where a: "a = (r', st')" by (cases a)
    have eq: "ab_loop api md alpha beta depth (move # moves) any_unsolved st = (r', st')"
      using Inl a c by simp
    have "pboard st' = undo api (pboard st2)" using ab_child_Inl_pboard Inl a by blast
    then show ?thesis unfolding eq using u by simp
  next
    case (Inr b)
    obtain alpha' au' st' where b: "b = (alpha', au', st')" by (cases b)
    let ?l = "ab_loop api md alpha' beta depth moves au' st'"
    have eq: "ab_loop api md alpha beta depth (move # moves) any_unsolved st = ?l"
      using Inr b c by simp
    have p: "pboard st' = pboard st" using ab_child_Inr_pboard Inr b u by metis
    have m: "set moves \<subseteq> set (generate_legal_moves api (pboard st') (current_player (pboard st')))"
      using "3.prems"(3) p by simp
    have "pboard (snd ?l) = pboard st'"
      using "3.IH"(2) [of "(alpha', au', st')" alpha' "(au', st')" au' st'] Inr b c "3.prems"(1,2) m
      by simp
    then show ?thesis unfolding eq using p by simp
  qed
qed


lemma solve_loop_pboard:
  assumes "solve_loop api r st = Some y"
  shows "undo_inverts api \<longrightarrow> shuffle_keeps api \<longrightarrow> pboard (snd y) = pboard st"
proof (rule solve_loop.raw_induct
    [where P = "\<lambda>api r st y. undo_inverts api \<longrightarrow> shuffle_keeps api \<longrightarrow> pboard (snd y) = pboard st",
     OF _ assms])
  fix f :: "('a go_board_scheme) solver_api \<Rightarrow> int \<times> bool \<times> bool \<Rightarrow> ('a go_board_scheme) player
     \<Rightarrow> ((int \<times> bool \<times> bool) \<times> ('a go_board_scheme) player) option"
    and api r st y
  assume IH: "\<And>api r st y. f api r st = Some y \<Longrightarrow>
      undo_inverts api \<longrightarrow> shuffle_keeps api \<longrightarrow> pboard (snd y) = pboard st"
    and eq: "(if \<not> fst (snd r) \<and> \<not> snd (snd r)
      then case alpha_beta api (max_depth st) (- 1) 1 0 st of
           (r', st') \<Rightarrow> f api r' (st'\<lparr>max_depth := max_depth st' + 1\<rparr>)
      else Some (r, st)) = Some y"
  show "undo_inverts api \<longrightarrow> shuffle_keeps api \<longrightarrow> pboard (snd y) = pboard st"
  proof (intro impI)
    assume inv: "undo_inverts api" "shuffle_keeps api"
    show "pboard (snd y) = pboard st"
    proof (cases "\<not> fst (snd r) \<and> \<not> snd (snd r)")
      case True
      obtain r' st' where ab: "alpha_beta api (max_depth st) (- 1) 1 0 st = (r', st')"
        by (cases "alpha_beta api (max_depth st) (- 1) 1 0 st")
      have p: "pboard st' = pboard st"
        using alpha_beta_pboard [OF inv, of "max_depth st" "- 1" 1 0 st] ab by simp
      from eq True ab have "f api r' (st'\<lparr>max_depth := max_depth st' + 1\<rparr>) = Some y"
        by simp
      from IH [OF this] inv show ?thesis using p by simp
    next
      case False
      then show ?thesis using eq by auto
    qed
  qed
qed

lemma tree_undo_inverts: "undo_inverts (tree_api clock shuf)"
  unfolding undo_inverts_def
proof (intro allI impI)
  fix b :: tree_board and move
  assume "move \<in> set (generate_legal_moves (tree_api clock shuf) b (current_player b))"
  then have "move \<in> fst ` set (gkids (here b))" by (simp add: tree_api_def)
  then obtain t where "map_of (gkids (here b)) move = Some t"
    by (metis domD dom_map_of_conv_image_fst)
  then show "undo (tree_api clock shuf) (play_move (tree_api clock shuf) b move (current_player b)) = b"
    by (simp add: tree_api_def tree_play_def tree_undo_def opponent_def)
qed

lemma tree_shuffle_keeps: "shuffle_keeps (tree_api clock in_order)"
  by (simp add: shuffle_keeps_def tree_api_def in_order_def)



text \<open>
  Claim C5. \<open>solve_board\<close> searches on \<open>board.copy ()\<close>, never on the caller's board,
  and every \<open>play_move\<close> of \<open>alpha_beta\<close> is followed by \<open>undo\<close> before the call
  returns. Given that \<open>undo\<close> takes back a legal move exactly, every call of
  \<open>alpha_beta\<close> returns with the working board it started with, on every return path
  and for every clock, and when \<open>solve_board\<close> returns its working board is again the
  copy taken at entry.
\<close>

theorem solver_leaves_board_unchanged:
  assumes "undo_inverts api" and "shuffle_keeps api"
  shows "pboard (snd (alpha_beta api md alpha beta depth st)) = pboard st
       \<and> (\<forall>r st'. solve_board api st0 b = Some (r, st') \<longrightarrow> pboard st' = copy api b)"
proof
  show "pboard (snd (alpha_beta api md alpha beta depth st)) = pboard st"
    by (rule alpha_beta_pboard [OF assms])
next
  show "\<forall>r st'. solve_board api st0 b = Some (r, st') \<longrightarrow> pboard st' = copy api b"
  proof (intro allI impI)
    fix r st' assume sb: "solve_board api st0 b = Some (r, st')"
    let ?st2 = "solve_start api st0 b"
    have p2: "pboard ?st2 = copy api b" by (simp add: solve_start_def Let_def)
    show "pboard st' = copy api b"
    proof (cases "rule api (pboard ?st2)")
      case (Inl e)
      then show ?thesis using sb p2 by (simp add: solve_board_def Let_def)
    next
      case (Inr xo)
      show ?thesis
      proof (cases xo)
        case (Some x)
        then show ?thesis using sb Inr p2
          by (auto simp add: solve_board_def Let_def split: sum.splits)
      next
        case None
        show ?thesis
        proof (cases "solve_loop api (0, False, False) (?st2\<lparr>max_depth := 1\<rparr>)")
          case None': None
          then show ?thesis using sb Inr None by (simp add: solve_board_def Let_def)
        next
          case (Some y)
          have "pboard (snd y) = pboard (?st2\<lparr>max_depth := 1\<rparr>)"
            using solve_loop_pboard [OF Some] assms by blast
          then have py: "pboard (snd y) = copy api b" using p2 by simp
          obtain res solved timeout st where y: "y = ((res, solved, timeout), st)"
            by (cases y) auto
          have "snd (the (solve_board api st0 b)) = st"
            using Inr None Some y
            by (simp add: solve_board_def Let_def split: sum.splits)
          then show ?thesis using sb py y by simp
        qed
      qed
    qed
  qed
qed


theorem solver_leaves_board_unchanged_witness:
  "pboard (snd (alpha_beta (tree_api (expires_at 2) in_order) 2 (- 1) 1 0
       (idle_player\<lparr>pboard := tree_position 2 BLACK capture_line_tree\<rparr>)))
     = tree_position 2 BLACK capture_line_tree
   \<and> map_option (pboard \<circ> snd) (solve_board (tree_api (expires_at 6) in_order) idle_player
        (tree_position 2 BLACK capture_line_tree))
     = Some (tree_position 2 BLACK capture_line_tree)"
proof -
  let ?b = "tree_position 2 BLACK capture_line_tree"
  let ?st = "\<lparr>pboard = ?b, best_move = 4, max_depth = 3, ticks = 7\<rparr>"
  have run: "solve_board (tree_api (expires_at 6) in_order) idle_player ?b
      = Some (Inr (PyStr ''unknown'', PyNone), ?st)"
    by code_simp
  have cp: "copy (tree_api (expires_at 6) in_order) ?b = ?b"
    by (simp add: tree_api_def tree_position_def)
  have a: "pboard (snd (alpha_beta (tree_api (expires_at 2) in_order) 2 (- 1) 1 0
       (idle_player\<lparr>pboard := ?b\<rparr>))) = pboard (idle_player\<lparr>pboard := ?b\<rparr>)"
    by (rule conjunct1 [OF solver_leaves_board_unchanged
          [OF tree_undo_inverts tree_shuffle_keeps]])
  have b: "\<forall>r st'. solve_board (tree_api (expires_at 6) in_order) idle_player ?b = Some (r, st')
       \<longrightarrow> pboard st' = copy (tree_api (expires_at 6) in_order) ?b"
    by (rule conjunct2 [OF solver_leaves_board_unchanged
          [OF tree_undo_inverts tree_shuffle_keeps, of _ 0 0 0 0 idle_player]])
  have b': "pboard ?st = ?b" using b run cp by simp
  have a': "pboard (idle_player\<lparr>pboard := ?b\<rparr>) = ?b" by simp
  show ?thesis
    unfolding a a' run by simp
qed

subsection \<open>The solver: the stored best move and the end of the loop\<close>




















subsection \<open>\<open>get_move\<close>\<close>

text \<open>
  Claim C10, as amended. When \<open>get_move\<close> is called on a board with an empty point
  and an integer colour, whatever its value, the test \<open>color == 'w'\<close> fails: the
  caller's board gets \<open>current_player = BLACK\<close> and \<open>solve_board\<close> runs on that
  board. The same holds for every argument other than the string \<open>w\<close>, and only the
  string \<open>w\<close> makes White the side to move.
\<close>

theorem get_move_int_color_solves_for_black:
  assumes "length (get_empty_points api b) \<noteq> 0"
  shows "get_move api st b (PyInt c) = get_move_solve api st (b\<lparr>current_player := BLACK\<rparr>)
       \<and> get_move api st b (PyStr ''w'') = get_move_solve api st (b\<lparr>current_player := WHITE\<rparr>)
       \<and> (\<forall>color. color \<noteq> PyStr ''w'' \<longrightarrow>
             get_move api st b color = get_move_solve api st (b\<lparr>current_player := BLACK\<rparr>))
       \<and> (\<forall>r st' b'. get_move api st b (PyInt c) = Some (r, st', b') \<longrightarrow>
             current_player b' = BLACK
             \<and> (\<exists>x. solve_board api st (b\<lparr>current_player := BLACK\<rparr>) = Some (x, st')))"
proof -
  have a: "get_move api st b (PyInt c) = get_move_solve api st (b\<lparr>current_player := BLACK\<rparr>)"
    using assms by (simp add: get_move_def)
  have w: "get_move api st b (PyStr ''w'') = get_move_solve api st (b\<lparr>current_player := WHITE\<rparr>)"
    using assms by (simp add: get_move_def)
  have o: "\<forall>color. color \<noteq> PyStr ''w'' \<longrightarrow>
             get_move api st b color = get_move_solve api st (b\<lparr>current_player := BLACK\<rparr>)"
    using assms by (simp add: get_move_def)
  have e: "\<forall>r st' b'. get_move_solve api st (b\<lparr>current_player := BLACK\<rparr>) = Some (r, st', b') \<longrightarrow>
             current_player b' = BLACK
             \<and> (\<exists>x. solve_board api st (b\<lparr>current_player := BLACK\<rparr>) = Some (x, st'))"
  proof (intro allI impI)
    fix r st' b'
    let ?B = "b\<lparr>current_player := BLACK\<rparr>"
    assume g: "get_move_solve api st ?B = Some (r, st', b')"
    show "current_player b' = BLACK \<and> (\<exists>x. solve_board api st ?B = Some (x, st'))"
    proof (cases "solve_board api st ?B")
      case None
      then show ?thesis using g by (simp add: get_move_solve_def)
    next
      case (Some y)
      obtain x st1 where y: "y = (x, st1)" by (cases y)
      show ?thesis
      proof (cases x)
        case (Inl err)
        then have "st' = st1 \<and> b' = ?B" using g Some y by (simp add: get_move_solve_def)
        then show ?thesis using Some y by simp
      next
        case (Inr wm)
        obtain winner move where wm: "wm = (winner, move)" by (cases wm)
        have "st' = st1 \<and> b' = ?B\<lparr>last_move := move\<rparr>"
          using g Some y Inr wm by (simp add: get_move_solve_def)
        then show ?thesis using Some y by simp
      qed
    qed
  qed
  show ?thesis unfolding a w using o e unfolding a by (intro conjI refl)
qed

theorem get_move_int_color_witness:
  "map_option (\<lambda>y. (fst y, current_player (snd (snd y))))
       (get_move (tree_api never in_order) idle_player
          (tree_position 2 WHITE capture_line_tree) (PyInt WHITE))
     = Some (Inr ''a1'', BLACK)
   \<and> get_move (tree_api never in_order) idle_player
          (tree_position 2 WHITE capture_line_tree) (PyInt WHITE)
     = get_move_solve (tree_api never in_order) idle_player
          ((tree_position 2 WHITE capture_line_tree)\<lparr>current_player := BLACK\<rparr>)"
proof -
  have ne: "length (get_empty_points (tree_api never in_order)
      (tree_position 2 WHITE capture_line_tree)) \<noteq> 0"
    by code_simp
  have run: "map_option (\<lambda>y. (fst y, current_player (snd (snd y))))
       (get_move (tree_api never in_order) idle_player
          (tree_position 2 WHITE capture_line_tree) (PyInt WHITE))
     = Some (Inr ''a1'', BLACK)"
    by code_simp
  from get_move_int_color_solves_for_black [OF ne, of idle_player WHITE] run
  show ?thesis by blast
qed


text \<open>
  Claim C10, as stated, fails on a full board. Called with the integer colour
  \<open>BLACK\<close> on a board without empty points whose side to move is White, \<open>get_move\<close>
  returns \<open>pass\<close> before the colour test: \<open>current_player\<close> stays White, the player is
  untouched and nothing is solved.
\<close>

theorem get_move_full_board_keeps_player:
  "get_move (tree_api never in_order) idle_player (tree_position 2 WHITE drawn_leaf) (PyInt BLACK)
     = Some (Inr ''pass'', idle_player, tree_position 2 WHITE drawn_leaf)
   \<and> get_empty_points (tree_api never in_order) (tree_position 2 WHITE drawn_leaf) = []
   \<and> current_player (tree_position 2 WHITE drawn_leaf) = WHITE
   \<and> WHITE \<noteq> BLACK"
  by (simp add: get_move_def tree_api_def tree_position_def drawn_leaf_def WHITE_def BLACK_def)




subsection \<open>\<open>solve_board\<close> on a timeout\<close>






end
